theory Spec2Isabelle
  imports Main "HOL-Library.Char_ord" "HOL-Library.List_Lexorder" "HOL-Library.Product_Lexorder"
begin

section \<open>Python values and exceptions\<close>

text \<open>
  A raw build record, a step, a log entry and a shard summary are decoded JSON: Python
  dictionaries, lists, strings, numbers, booleans and \<open>None\<close>. A dictionary is an
  association list read with \<open>map_of\<close>. JSON numbers are integers here (floating point is
  left out). A string is a list of code points below 256.
\<close>

datatype json =
    JNull
  | JBool bool
  | JInt int
  | JStr string
  | JList "json list"
  | JObj "(string \<times> json) list"

text \<open>
  The exceptions the code can raise or let through. \<open>RequestException\<close> is the class
  that \<open>contextlib.suppress\<close> catches in \<open>_fetch_swarming_summary\<close>;
  \<open>OtherException\<close> stands for any exception of the fetch that is not a
  \<open>RequestException\<close>. \<open>IllTypedBuild\<close> marks the one place where the model is
  typed and Python is not: a \<open>Build\<close> made from a value outside its annotated type.
\<close>

datatype py_error =
    AttributeError
  | KeyError
  | TypeError
  | ValueError
  | AssertionError
  | RequestException
  | OtherException
  | UnresolvedBuildException string
  | IllTypedBuild

text \<open>Sequencing of a computation that may raise: the first exception wins.\<close>

definition bnd :: "py_error + 'a \<Rightarrow> ('a \<Rightarrow> py_error + 'b) \<Rightarrow> py_error + 'b" where
  "bnd m f = (case m of Inl e \<Rightarrow> Inl e | Inr v \<Rightarrow> f v)"

text \<open>\<open>bool(x)\<close>: \<open>None\<close>, \<open>False\<close>, 0 and the empty string, list and dict are falsy.\<close>

fun py_truthy :: "json \<Rightarrow> bool" where
  "py_truthy JNull = False"
| "py_truthy (JBool b) = b"
| "py_truthy (JInt n) = (n \<noteq> 0)"
| "py_truthy (JStr s) = (s \<noteq> [])"
| "py_truthy (JList xs) = (xs \<noteq> [])"
| "py_truthy (JObj kvs) = (kvs \<noteq> [])"

text \<open>\<open>x.get(key, default)\<close>: only a dict has the method.\<close>

fun py_get :: "json \<Rightarrow> string \<Rightarrow> json \<Rightarrow> py_error + json" where
  "py_get (JObj kvs) k d = Inr (case map_of kvs k of None \<Rightarrow> d | Some v \<Rightarrow> v)"
| "py_get _ k d = Inl AttributeError"

text \<open>\<open>x[key]\<close> with a string key: \<open>KeyError\<close> on a dict without the key,
  \<open>TypeError\<close> on every other value.\<close>

fun py_getitem :: "json \<Rightarrow> string \<Rightarrow> py_error + json" where
  "py_getitem (JObj kvs) k = (case map_of kvs k of None \<Rightarrow> Inl KeyError | Some v \<Rightarrow> Inr v)"
| "py_getitem _ k = Inl TypeError"

text \<open>Iteration: a list gives its elements, a string its characters, a dict its keys;
  nothing else is iterable.\<close>

fun py_iter :: "json \<Rightarrow> py_error + json list" where
  "py_iter (JList xs) = Inr xs"
| "py_iter (JStr s) = Inr (map (\<lambda>c. JStr [c]) s)"
| "py_iter (JObj kvs) = Inr (map (\<lambda>kv. JStr (fst kv)) kvs)"
| "py_iter _ = Inl TypeError"

text \<open>\<open>x not in {None, 'TEST_FAILURE'}\<close>: membership in a set hashes \<open>x\<close> first, and a
  list or a dict is unhashable.\<close>

fun not_in_none_test_failure :: "json \<Rightarrow> py_error + bool" where
  "not_in_none_test_failure (JList xs) = Inl TypeError"
| "not_in_none_test_failure (JObj kvs) = Inl TypeError"
| "not_in_none_test_failure v = Inr (v \<noteq> JNull \<and> v \<noteq> JStr ''TEST_FAILURE'')"

subsection \<open>\<open>int(x)\<close>\<close>

definition is_digit :: "char \<Rightarrow> bool" where
  "is_digit c = (48 \<le> (of_char c :: nat) \<and> (of_char c :: nat) \<le> 57)"

definition digit_val :: "char \<Rightarrow> nat" where
  "digit_val c = of_char c - 48"

text \<open>Whitespace that \<open>int\<close> strips, among the code points below 256: the ASCII
  whitespace of C (tab to carriage return, and the space), and the two Latin-1 spaces
  (next line and no-break space). The separators 28 to 31 are not stripped.\<close>

definition is_space :: "char \<Rightarrow> bool" where
  "is_space c = ((of_char c :: nat) \<in> {9, 10, 11, 12, 13, 32, 133, 160})"

definition strip :: "string \<Rightarrow> string" where
  "strip s = rev (dropWhile is_space (rev (dropWhile is_space s)))"

text \<open>Decimal digits, single underscores allowed between two digits.\<close>

fun parse_digits :: "nat \<Rightarrow> bool \<Rightarrow> string \<Rightarrow> nat option" where
  "parse_digits acc lastd [] = (if lastd then Some acc else None)"
| "parse_digits acc lastd (c # cs) =
     (if is_digit c then parse_digits (10 * acc + digit_val c) True cs
      else if c = CHR ''_'' \<and> lastd \<and> cs \<noteq> [] then parse_digits acc False cs
      else None)"

definition int_of_str :: "string \<Rightarrow> py_error + int" where
  "int_of_str s =
     (case strip s of
        [] \<Rightarrow> Inl ValueError
      | c # cs \<Rightarrow>
          (if c = CHR ''-'' then
             (case parse_digits 0 False cs of None \<Rightarrow> Inl ValueError | Some n \<Rightarrow> Inr (- int n))
           else if c = CHR ''+'' then
             (case parse_digits 0 False cs of None \<Rightarrow> Inl ValueError | Some n \<Rightarrow> Inr (int n))
           else
             (case parse_digits 0 False (c # cs) of None \<Rightarrow> Inl ValueError | Some n \<Rightarrow> Inr (int n))))"

fun py_int :: "json \<Rightarrow> py_error + int" where
  "py_int (JInt n) = Inr n"
| "py_int (JBool b) = Inr (if b then 1 else 0)"
| "py_int (JStr s) = int_of_str s"
| "py_int _ = Inl TypeError"

section \<open>The step-name pattern\<close>

text \<open>
  \<open>re.fullmatch\<close> of a pattern without back-references decides membership in a regular
  language; the matcher below takes derivatives.
\<close>

datatype rx =
    Zero
  | One
  | Atom "char \<Rightarrow> bool"
  | Plus rx rx
  | Times rx rx
  | Star rx

fun nullable :: "rx \<Rightarrow> bool" where
  "nullable Zero = False"
| "nullable One = True"
| "nullable (Atom p) = False"
| "nullable (Plus r s) = (nullable r \<or> nullable s)"
| "nullable (Times r s) = (nullable r \<and> nullable s)"
| "nullable (Star r) = True"

fun plus :: "rx \<Rightarrow> rx \<Rightarrow> rx" where
  "plus Zero s = s"
| "plus r Zero = r"
| "plus r s = Plus r s"

fun times :: "rx \<Rightarrow> rx \<Rightarrow> rx" where
  "times Zero s = Zero"
| "times r Zero = Zero"
| "times One s = s"
| "times r s = Times r s"

fun deriv :: "char \<Rightarrow> rx \<Rightarrow> rx" where
  "deriv c Zero = Zero"
| "deriv c One = Zero"
| "deriv c (Atom p) = (if p c then One else Zero)"
| "deriv c (Plus r s) = plus (deriv c r) (deriv c s)"
| "deriv c (Times r s) =
     (if nullable r then plus (times (deriv c r) s) (deriv c s) else times (deriv c r) s)"
| "deriv c (Star r) = times (deriv c r) (Star r)"

definition fullmatch :: "rx \<Rightarrow> string \<Rightarrow> bool" where
  "fullmatch r s = nullable (foldl (\<lambda>r c. deriv c r) r s)"

fun lit :: "string \<Rightarrow> rx" where
  "lit [] = One"
| "lit (c # cs) = Times (Atom (\<lambda>x. x = c)) (lit cs)"

text \<open>\<open>\w\<close> on a \<open>str\<close> pattern: alphanumeric code points and the underscore. Below 256
  these are the ASCII letters and digits and the Latin-1 letters and numerics.\<close>

definition is_word :: "char \<Rightarrow> bool" where
  "is_word c =
     (let n = (of_char c :: nat) in
        (48 \<le> n \<and> n \<le> 57) \<or> (65 \<le> n \<and> n \<le> 90) \<or> (97 \<le> n \<and> n \<le> 122) \<or> n = 95 \<or>
        n \<in> {170, 178, 179, 181, 185, 186, 188, 189, 190} \<or>
        (192 \<le> n \<and> n \<le> 214) \<or> (216 \<le> n \<and> n \<le> 246) \<or> (248 \<le> n \<and> n \<le> 255))"

text \<open>\<^verbatim>\<open>[\w_-]*(webdriver|blink_(web|wpt))_tests.*\(with patch\)[^|]*\<close>\<close>

definition run_web_tests_pattern :: rx where
  "run_web_tests_pattern =
     Times (Star (Atom (\<lambda>c. is_word c \<or> c = CHR ''_'' \<or> c = CHR ''-'')))
    (Times (Plus (lit ''webdriver'')
                 (Times (lit ''blink_'') (Plus (lit ''web'') (lit ''wpt''))))
    (Times (lit ''_tests'')
    (Times (Star (Atom (\<lambda>c. c \<noteq> CHR 0x0A)))
    (Times (lit ''(with patch)'')
           (Star (Atom (\<lambda>c. c \<noteq> CHR ''|'')))))))"

text \<open>\<open>pattern.fullmatch(x)\<close>: \<open>TypeError\<close> unless \<open>x\<close> is a string.\<close>

fun py_fullmatch :: "rx \<Rightarrow> json \<Rightarrow> py_error + bool" where
  "py_fullmatch r (JStr s) = Inr (fullmatch r s)"
| "py_fullmatch r _ = Inl TypeError"

section \<open>Statuses and what the resolver is given\<close>

text \<open>\<open>TryJobStatus\<close> is a named tuple \<open>(status, result)\<close>.\<close>

type_synonym TryJobStatus = "string \<times> string option"

text \<open>
  What \<open>_status_if_interrupted\<close> uses and the sources do not hold:
  \<^item> \<open>fetch_json url\<close> is \<open>self._web.session.get(url, params={'format': 'raw'}).json()\<close>:
    the decoded content, or the exception raised;
  \<^item> \<open>from_bb_status\<close> is \<open>TryJobStatus.from_bb_status\<close>;
  \<^item> \<open>ERROR_CODES\<close> is \<open>exit_codes.ERROR_CODES\<close>.
\<close>

record classifier_env =
  fetch_json :: "json \<Rightarrow> py_error + json"
  from_bb_status :: "json \<Rightarrow> py_error + TryJobStatus"
  ERROR_CODES :: "int list"

section \<open>The interruption classifier\<close>

text \<open>\<open>_shard_interrupted\<close>: \<open>int(shard.get('exit_code', 0)) in exit_codes.ERROR_CODES\<close>\<close>

definition shard_interrupted :: "int list \<Rightarrow> json \<Rightarrow> py_error + bool" where
  "shard_interrupted codes shard =
     bnd (py_get shard ''exit_code'' (JInt 0)) (\<lambda>c.
     bnd (py_int c) (\<lambda>n. Inr (n \<in> set codes)))"

text \<open>\<open>any(map(_shard_interrupted, shards))\<close>: stops at the first interrupted shard; an
  exception of an earlier shard gets out.\<close>

fun any_shard_interrupted :: "int list \<Rightarrow> json list \<Rightarrow> py_error + bool" where
  "any_shard_interrupted codes [] = Inr False"
| "any_shard_interrupted codes (sh # shs) =
     bnd (shard_interrupted codes sh) (\<lambda>b.
       if b then Inr True else any_shard_interrupted codes shs)"

text \<open>
  \<open>_fetch_swarming_summary\<close>, on the list of the step's logs: the first log named
  \<open>chromium_swarming.summary\<close> whose fetch does not raise a \<open>RequestException\<close> gives
  the summary; a suppressed exception leaves the \<open>with\<close> block and the loop goes on.
\<close>

fun fetch_from_logs :: "(json \<Rightarrow> py_error + json) \<Rightarrow> string \<Rightarrow> json list \<Rightarrow> py_error + json" where
  "fetch_from_logs fetch log_name [] = Inr JNull"
| "fetch_from_logs fetch log_name (lg # lgs) =
     bnd (py_getitem lg ''name'') (\<lambda>n.
       if n = JStr log_name then
         bnd (py_getitem lg ''viewUrl'') (\<lambda>url.
           case fetch url of
             Inl e \<Rightarrow> (if e = RequestException then fetch_from_logs fetch log_name lgs else Inl e)
           | Inr content \<Rightarrow> Inr content)
       else fetch_from_logs fetch log_name lgs)"

definition fetch_swarming_summary :: "(json \<Rightarrow> py_error + json) \<Rightarrow> json \<Rightarrow> py_error + json" where
  "fetch_swarming_summary fetch step =
     bnd (py_get step ''logs'' (JList [])) (\<lambda>logs.
     bnd (py_iter logs) (\<lambda>lgs.
       fetch_from_logs fetch ''chromium_swarming.summary'' lgs))"

text \<open>The body of the loop over the steps: whether this step shows an interrupted shard.\<close>

definition step_interrupted :: "classifier_env \<Rightarrow> json \<Rightarrow> py_error + bool" where
  "step_interrupted env step =
     bnd (py_getitem step ''name'') (\<lambda>name.
     bnd (py_fullmatch run_web_tests_pattern name) (\<lambda>m.
       if m then
         bnd (fetch_swarming_summary (fetch_json env) step) (\<lambda>summary.
         bnd (py_get (if py_truthy summary then summary else JObj []) ''shards'' (JList [])) (\<lambda>shards.
         bnd (py_iter shards) (\<lambda>shs.
           any_shard_interrupted (ERROR_CODES env) shs)))
       else Inr False))"

fun any_step_interrupted :: "classifier_env \<Rightarrow> json list \<Rightarrow> py_error + bool" where
  "any_step_interrupted env [] = Inr False"
| "any_step_interrupted env (st # sts) =
     bnd (step_interrupted env st) (\<lambda>b.
       if b then Inr True else any_step_interrupted env sts)"

definition status_if_interrupted :: "classifier_env \<Rightarrow> json \<Rightarrow> py_error + TryJobStatus" where
  "status_if_interrupted env raw_build =
     bnd (py_get raw_build ''output'' (JObj [])) (\<lambda>output.
     bnd (py_get output ''properties'' (JObj [])) (\<lambda>output_props.
     bnd (py_get output_props ''failure_type'' JNull) (\<lambda>failure_type.
     bnd (not_in_none_test_failure failure_type) (\<lambda>disqualified.
       if disqualified then from_bb_status env (JStr ''INFRA_FAILURE'')
       else
         bnd (py_get raw_build ''steps'' (JList [])) (\<lambda>steps.
         bnd (py_iter steps) (\<lambda>sts.
         bnd (any_step_interrupted env sts) (\<lambda>interrupted.
           if interrupted then from_bb_status env (JStr ''INFRA_FAILURE'')
           else bnd (py_getitem raw_build ''status'') (from_bb_status env))))))))"

definition hashable :: "json \<Rightarrow> bool" where
  "hashable v = (case v of JList xs \<Rightarrow> False | JObj kvs \<Rightarrow> False | _ \<Rightarrow> True)"

definition failure_type_of :: "json \<Rightarrow> json option" where
  "failure_type_of raw_build =
     (case raw_build of
        JObj kvs \<Rightarrow>
          (case map_of kvs ''output'' of
             None \<Rightarrow> Some JNull
           | Some (JObj okvs) \<Rightarrow>
               (case map_of okvs ''properties'' of
                  None \<Rightarrow> Some JNull
                | Some (JObj pkvs) \<Rightarrow>
                    (case map_of pkvs ''failure_type'' of None \<Rightarrow> Some JNull | Some ft \<Rightarrow> Some ft)
                | Some _ \<Rightarrow> None)
           | Some _ \<Rightarrow> None)
      | _ \<Rightarrow> None)"

text \<open>The exit code \<open>_shard_interrupted\<close> reads from a shard: the integer value of its
  \<open>exit_code\<close>, 0 without one; none when the shard is not a dict or \<open>int\<close> refuses.\<close>

definition exit_code_of :: "json \<Rightarrow> int option" where
  "exit_code_of shard =
     (case shard of
        JObj kvs \<Rightarrow>
          (case py_int (case map_of kvs ''exit_code'' of None \<Rightarrow> JInt 0 | Some c \<Rightarrow> c) of
             Inl e \<Rightarrow> None
           | Inr n \<Rightarrow> Some n)
      | _ \<Rightarrow> None)"

text \<open>The shards of fetched content: none for falsy content (\<open>None\<close>, 0, an empty string,
  list or dict) and for a dict without \<open>shards\<close>; the elements of \<open>shards\<close> for a dict
  that has them. Truthy content that is not a dict, and \<open>shards\<close> that cannot be iterated,
  have no reading.\<close>

definition shards_of :: "json \<Rightarrow> json list option" where
  "shards_of content =
     (if \<not> py_truthy content then Some []
      else
        case content of
          JObj kvs \<Rightarrow>
            (case map_of kvs ''shards'' of
               None \<Rightarrow> Some []
             | Some shards \<Rightarrow> (case py_iter shards of Inl e \<Rightarrow> None | Inr shs \<Rightarrow> Some shs))
        | _ \<Rightarrow> None)"

text \<open>A well-formed summary: its shards can be read and each has an exit code.\<close>

definition wf_summary :: "json \<Rightarrow> bool" where
  "wf_summary content =
     (case shards_of content of
        None \<Rightarrow> False
      | Some shs \<Rightarrow> list_all (\<lambda>sh. exit_code_of sh \<noteq> None) shs)"

definition summary_exit_codes :: "json \<Rightarrow> int list" where
  "summary_exit_codes content =
     (case shards_of content of
        None \<Rightarrow> []
      | Some shs \<Rightarrow> map (\<lambda>sh. the (exit_code_of sh)) shs)"

text \<open>A well-formed log entry: a dict with a name; one named
  \<open>chromium_swarming.summary\<close> also has a \<open>viewUrl\<close>, whose fetch raises a
  \<open>RequestException\<close> or gives a well-formed summary.\<close>

definition wf_log :: "(json \<Rightarrow> py_error + json) \<Rightarrow> json \<Rightarrow> bool" where
  "wf_log fetch lg =
     (case lg of
        JObj kvs \<Rightarrow>
          (case map_of kvs ''name'' of
             None \<Rightarrow> False
           | Some n \<Rightarrow>
               n \<noteq> JStr ''chromium_swarming.summary'' \<or>
               (case map_of kvs ''viewUrl'' of
                  None \<Rightarrow> False
                | Some url \<Rightarrow>
                    (case fetch url of Inl e \<Rightarrow> e = RequestException | Inr content \<Rightarrow> wf_summary content)))
      | _ \<Rightarrow> False)"

definition step_name_matches :: "json \<Rightarrow> bool" where
  "step_name_matches step =
     (case step of
        JObj kvs \<Rightarrow>
          (case map_of kvs ''name'' of
             Some (JStr n) \<Rightarrow> fullmatch run_web_tests_pattern n
           | _ \<Rightarrow> False)
      | _ \<Rightarrow> False)"

text \<open>A well-formed step: a dict with a string name; when the name matches the pattern,
  its logs (if it has any) are a list of well-formed log entries.\<close>

definition wf_step :: "(json \<Rightarrow> py_error + json) \<Rightarrow> json \<Rightarrow> bool" where
  "wf_step fetch step =
     (case step of
        JObj kvs \<Rightarrow>
          (case map_of kvs ''name'' of
             Some (JStr n) \<Rightarrow>
               \<not> fullmatch run_web_tests_pattern n \<or>
               (case map_of kvs ''logs'' of
                  None \<Rightarrow> True
                | Some (JList lgs) \<Rightarrow> list_all (wf_log fetch) lgs
                | Some _ \<Rightarrow> False)
           | _ \<Rightarrow> False)
      | _ \<Rightarrow> False)"

text \<open>The urls of the logs named \<open>chromium_swarming.summary\<close>, in the order of the logs.\<close>

definition log_summary_url :: "json \<Rightarrow> json list" where
  "log_summary_url lg =
     (case lg of
        JObj kvs \<Rightarrow>
          (if map_of kvs ''name'' = Some (JStr ''chromium_swarming.summary'')
           then (case map_of kvs ''viewUrl'' of None \<Rightarrow> [] | Some url \<Rightarrow> [url])
           else [])
      | _ \<Rightarrow> [])"

definition summary_urls :: "json \<Rightarrow> json list" where
  "summary_urls step =
     (case step of
        JObj kvs \<Rightarrow>
          (case map_of kvs ''logs'' of
             Some (JList lgs) \<Rightarrow> concat (map log_summary_url lgs)
           | _ \<Rightarrow> [])
      | _ \<Rightarrow> [])"

text \<open>The shard summary of a step: the content at the first of its summary urls whose
  fetch does not raise a \<open>RequestException\<close>; null when there is none.\<close>

definition first_fetched :: "(json \<Rightarrow> py_error + json) \<Rightarrow> json list \<Rightarrow> json" where
  "first_fetched fetch urls =
     (case filter (\<lambda>url. fetch url \<noteq> Inl RequestException) urls of
        [] \<Rightarrow> JNull
      | url # rest \<Rightarrow> (case fetch url of Inl e \<Rightarrow> JNull | Inr content \<Rightarrow> content))"

definition summary_of :: "(json \<Rightarrow> py_error + json) \<Rightarrow> json \<Rightarrow> json" where
  "summary_of fetch step = first_fetched fetch (summary_urls step)"

text \<open>A step shows an interruption when its name matches the pattern and its shard
  summary holds an exit code of \<open>ERROR_CODES\<close>.\<close>

definition step_shows_interruption :: "classifier_env \<Rightarrow> json \<Rightarrow> bool" where
  "step_shows_interruption env step =
     (step_name_matches step \<and>
      (\<exists>c\<in>set (summary_exit_codes (summary_of (fetch_json env) step)). c \<in> set (ERROR_CODES env)))"

definition steps_of :: "json \<Rightarrow> json list" where
  "steps_of raw_build =
     (case raw_build of
        JObj kvs \<Rightarrow> (case map_of kvs ''steps'' of Some (JList sts) \<Rightarrow> sts | _ \<Rightarrow> [])
      | _ \<Rightarrow> [])"

definition reported_status :: "json \<Rightarrow> json" where
  "reported_status raw_build =
     (case raw_build of
        JObj kvs \<Rightarrow> (case map_of kvs ''status'' of Some s \<Rightarrow> s | None \<Rightarrow> JNull)
      | _ \<Rightarrow> JNull)"

text \<open>A well-formed raw build record: a dict with a status whose steps (if it has any)
  are a list of well-formed steps.\<close>

definition wf_raw_build :: "(json \<Rightarrow> py_error + json) \<Rightarrow> json \<Rightarrow> bool" where
  "wf_raw_build fetch raw_build =
     (case raw_build of
        JObj kvs \<Rightarrow>
          map_of kvs ''status'' \<noteq> None \<and>
          (case map_of kvs ''steps'' of
             None \<Rightarrow> True
           | Some (JList sts) \<Rightarrow> list_all (wf_step fetch) sts
           | Some _ \<Rightarrow> False)
      | _ \<Rightarrow> False)"

text \<open>A step with other logs: the same dict but for the value of \<open>logs\<close>.\<close>

definition with_logs :: "json \<Rightarrow> json list \<Rightarrow> json" where
  "with_logs step lgs =
     (case step of
        JObj kvs \<Rightarrow> JObj ((''logs'', JList lgs) # kvs)
      | _ \<Rightarrow> step)"

text \<open>
  An instance for the examples. Modelled from the spec: \<open>TryJobStatus.from_bb_status\<close> is
  not in the sources. By the spec's data model a status is a pair of a status code among
  SCHEDULED, STARTED, COMPLETED, INFRA_FAILURE (and the resolver's TRIGGERED and MISSING) and
  a result, present only with COMPLETED and then SUCCESS or FAILURE. The exit codes are an
  instance of \<open>exit_codes.ERROR_CODES\<close>, which the sources do not hold either.
\<close>

definition example_from_bb_status :: "json \<Rightarrow> py_error + TryJobStatus" where
  "example_from_bb_status bb_status =
     (case bb_status of
        JStr s \<Rightarrow>
          (if s = ''SCHEDULED'' \<or> s = ''STARTED'' \<or> s = ''INFRA_FAILURE'' then Inr (s, None)
           else if s = ''SUCCESS'' \<or> s = ''FAILURE'' then Inr (''COMPLETED'', Some s)
           else Inl AssertionError)
      | _ \<Rightarrow> Inl AssertionError)"

definition example_fetch :: "json \<Rightarrow> py_error + json" where
  "example_fetch url =
     (if url = JStr ''https://logs.example/interrupted'' then
        Inr (JObj [(''shards'', JList [JObj [(''exit_code'', JStr ''0'')], JObj [(''exit_code'', JStr ''130'')]])])
      else if url = JStr ''https://logs.example/passed'' then
        Inr (JObj [(''shards'', JList [JObj [(''exit_code'', JStr ''0'')], JObj []])])
      else if url = JStr ''https://logs.example/array'' then
        Inr (JList [JObj [(''exit_code'', JStr ''0'')]])
      else if url = JStr ''https://logs.example/empty'' then
        Inr (JList [])
      else if url = JStr ''https://logs.example/null-shard'' then
        Inr (JObj [(''shards'', JList [JNull, JObj [(''exit_code'', JStr ''130'')]])])
      else Inl RequestException)"

definition example_env :: classifier_env where
  "example_env =
     \<lparr>fetch_json = example_fetch, from_bb_status = example_from_bb_status,
      ERROR_CODES = [130, 251, 252, 253, 254, 255]\<rparr>"

definition summary_log :: "string \<Rightarrow> json" where
  "summary_log url = JObj [(''name'', JStr ''chromium_swarming.summary''), (''viewUrl'', JStr url)]"

definition test_step :: "string \<Rightarrow> json" where
  "test_step url =
     JObj [(''name'', JStr ''blink_web_tests (with patch)''),
           (''logs'', JList [JObj [(''name'', JStr ''stdout''), (''viewUrl'', JStr ''https://logs.example/stdout'')],
                             summary_log url])]"

definition example_build :: "json list \<Rightarrow> json" where
  "example_build steps =
     JObj [(''id'', JStr ''8765''), (''number'', JInt 12345),
           (''builder'', JObj [(''builder'', JStr ''linux-rel''), (''bucket'', JStr ''try'')]),
           (''status'', JStr ''FAILURE''),
           (''output'', JObj [(''properties'', JObj [(''failure_type'', JStr ''TEST_FAILURE'')])]),
           (''steps'', JList steps)]"

text \<open>The exceptions the classifier's own operations do not raise: everything but the four
  built-in ones of attribute access, subscription, iteration and \<open>int\<close>.\<close>

definition not_builtin :: "py_error \<Rightarrow> bool" where
  "not_builtin e = (e \<noteq> AttributeError \<and> e \<noteq> KeyError \<and> e \<noteq> TypeError \<and> e \<noteq> ValueError)"

section \<open>Builds, statuses and the resolver's surroundings\<close>

text \<open>
  Modelled from the spec: the class \<open>Build\<close> (\<open>blinkpy.common.net.rpc\<close>) is not in the
  sources. It is the BuildIdentifier of the spec's data model: builder name, bucket, optional
  build number, optional internal id, compared field by field. The resolver builds it as
  \<open>Build(builder_name, build_number, build_id, bucket)\<close>, and \<open>_build_sort_key\<close> is
  annotated \<open>Tuple[str, int]\<close>. The id is opaque: any JSON value, null when absent.
\<close>

record Build =
  builder_name :: string
  build_number :: "int option"
  build_id :: json
  bucket :: string

text \<open>\<open>BuildStatuses\<close> is a dict from \<open>Build\<close> to \<open>TryJobStatus\<close>: an association list
  in insertion order, with the dict's two ways of writing.\<close>

type_synonym BuildStatuses = "(Build \<times> TryJobStatus) list"

definition dict_set :: "('k \<times> 'v) list \<Rightarrow> 'k \<Rightarrow> 'v \<Rightarrow> ('k \<times> 'v) list" where
  "dict_set d k v =
     (if k \<in> fst ` set d then map (\<lambda>kv. if fst kv = k then (k, v) else kv) d
      else d @ [(k, v)])"

definition dict_update :: "('k \<times> 'v) list \<Rightarrow> ('k \<times> 'v) list \<Rightarrow> ('k \<times> 'v) list" where
  "dict_update d other = foldl (\<lambda>acc kv. dict_set acc (fst kv) (snd kv)) d other"

text \<open>A set of builder names, as the list of its elements.\<close>

definition set_add :: "string list \<Rightarrow> string \<Rightarrow> string list" where
  "set_add xs x = (if x \<in> set xs then xs else xs @ [x])"

definition TRIGGERED :: TryJobStatus where
  "TRIGGERED = (''TRIGGERED'', None)"

definition MISSING :: TryJobStatus where
  "MISSING = (''MISSING'', None)"

definition build_fields :: "string list" where
  "build_fields =
     [''id'', ''number'', ''builder.builder'', ''builder.bucket'', ''status'',
      ''output.properties'', ''steps.*.name'', ''steps.*.logs.*.name'',
      ''steps.*.logs.*.view_url'']"

text \<open>The requests queued on the Buildbucket client: \<open>add_get_build_req(build,
  build_fields)\<close> and \<open>add_search_builds_req(predicate, build_fields, count)\<close>, the
  predicate given by its builder part and its status.\<close>

datatype bb_request =
    GetBuild Build "string list"
  | SearchBuilds "(string \<times> string) list" string "string list" nat

text \<open>What is logged. The message of \<open>fetch_or_trigger_try_jobs\<close> is rendered by
  \<open>pluralize\<close> and \<open>CLRevisionID\<close>, which the sources do not hold: it is kept as the
  number of builders, the issue and the patchset.\<close>

datatype log_record =
    Info string
  | Warning string
  | FetchingStatus nat int "int option"

text \<open>What the resolver changes: the client's queue of requests, the calls of
  \<open>trigger_try_jobs\<close>, and the log.\<close>

record resolver_state =
  batch_requests :: "bb_request list"
  trigger_calls :: "string list list"
  log_lines :: "log_record list"

text \<open>
  What the resolver is given and the sources do not hold:
  \<^item> \<open>issue_number\<close> is what \<open>git_cl.get_issue_number()\<close> returns;
  \<^item> \<open>latest_try_jobs issue builders patchset\<close> is \<open>git_cl.latest_try_jobs\<close>;
  \<^item> \<open>execute_batch\<close> gives the raw build records for the queued requests;
  \<^item> \<open>filter_incomplete\<close> is \<open>GitCL.filter_incomplete\<close>;
  \<^item> \<open>default_bucket\<close> is the bucket of \<open>Build(builder)\<close>, whose number and id are
    \<open>None\<close>.
  \<open>can_trigger_jobs\<close> is the constructor's flag. With an \<open>io_pool\<close> the classifier is
  mapped over the records by \<open>Executor.map\<close>, without one by \<open>map\<close>; both give the
  results in the order of the records, and the model has the one function for both.
\<close>

record resolver_env =
  classifier :: classifier_env
  issue_number :: string
  latest_try_jobs :: "string \<Rightarrow> string list \<Rightarrow> int option \<Rightarrow> BuildStatuses"
  execute_batch :: "bb_request list \<Rightarrow> json list"
  filter_incomplete :: "BuildStatuses \<Rightarrow> BuildStatuses"
  can_trigger_jobs :: bool
  default_bucket :: string

section \<open>The resolver\<close>

text \<open>\<open>_builder_predicate\<close>\<close>

definition builder_predicate :: "Build \<Rightarrow> (string \<times> string) list" where
  "builder_predicate build =
     [(''project'', ''chromium''), (''bucket'', bucket build), (''builder'', builder_name build)]"

text \<open>The truth value of an optional build number: \<open>None\<close> and 0 are falsy.\<close>

definition number_truthy :: "int option \<Rightarrow> bool" where
  "number_truthy n = (case n of None \<Rightarrow> False | Some k \<Rightarrow> k \<noteq> 0)"

text \<open>\<open>Build(builder_name, build_number, build_id, bucket)\<close> from a raw record: the four
  subscriptions in the order of the arguments, then the typed reading of the name, the
  number and the bucket. The id is kept as it is; the build is a dict key, so an id that
  cannot be hashed raises \<open>TypeError\<close>.\<close>

definition build_of_response :: "json \<Rightarrow> py_error + Build" where
  "build_of_response raw =
     bnd (py_getitem raw ''builder'') (\<lambda>b1.
     bnd (py_getitem b1 ''builder'') (\<lambda>name.
     bnd (py_getitem raw ''number'') (\<lambda>num.
     bnd (py_getitem raw ''id'') (\<lambda>ident.
     bnd (py_getitem raw ''builder'') (\<lambda>b2.
     bnd (py_getitem b2 ''bucket'') (\<lambda>bk.
       case (name, bk) of
         (JStr n, JStr k) \<Rightarrow>
           (case num of
              JNull \<Rightarrow>
                (if hashable ident
                 then Inr \<lparr>builder_name = n, build_number = None, build_id = ident, bucket = k\<rparr>
                 else Inl TypeError)
            | JInt m \<Rightarrow>
                (if hashable ident
                 then Inr \<lparr>builder_name = n, build_number = Some m, build_id = ident, bucket = k\<rparr>
                 else Inl TypeError)
            | _ \<Rightarrow> Inl IllTypedBuild)
       | _ \<Rightarrow> Inl IllTypedBuild))))))"

text \<open>\<open>_build_statuses_from_responses\<close>: the dict comprehension over
  \<open>zip(raw_builds, statuses)\<close>. For each record in turn the status is computed, then the
  key; a key met again keeps its place and takes the later status.\<close>

fun statuses_from_responses ::
  "classifier_env \<Rightarrow> BuildStatuses \<Rightarrow> json list \<Rightarrow> py_error + BuildStatuses" where
  "statuses_from_responses env acc [] = Inr acc"
| "statuses_from_responses env acc (raw # raws) =
     bnd (status_if_interrupted env raw) (\<lambda>status.
     bnd (build_of_response raw) (\<lambda>build.
       statuses_from_responses env (dict_set acc build status) raws))"

definition build_statuses_from_responses ::
  "classifier_env \<Rightarrow> json list \<Rightarrow> py_error + BuildStatuses" where
  "build_statuses_from_responses env raw_builds = statuses_from_responses env [] raw_builds"

subsection \<open>Logging\<close>

text \<open>\<open>str(n)\<close> for an integer.\<close>

fun str_of_nat :: "nat \<Rightarrow> string" where
  "str_of_nat n =
     (if n < 10 then [char_of (48 + n)]
      else str_of_nat (n div 10) @ [char_of (48 + n mod 10)])"

definition str_of_int :: "int \<Rightarrow> string" where
  "str_of_int i = (if i < 0 then CHR ''-'' # str_of_nat (nat (- i)) else str_of_nat (nat i))"

text \<open>\<open>str(build.build_number or '--')\<close>\<close>

definition number_column :: "int option \<Rightarrow> string" where
  "number_column n = (if number_truthy n then str_of_int (the n) else ''--'')"

text \<open>\<open>'%-Ns' % s\<close>: padded with spaces on the right, never cut.\<close>

definition ljust :: "nat \<Rightarrow> string \<Rightarrow> string" where
  "ljust n s = s @ replicate (n - length s) CHR '' ''"

text \<open>The template \<^verbatim>\<open>'  %-{w}s %-7s %-9s %-6s'\<close> applied to four strings.\<close>

definition table_line :: "nat \<Rightarrow> string \<Rightarrow> string \<Rightarrow> string \<Rightarrow> string \<Rightarrow> string" where
  "table_line w a b c d =
     ''  '' @ ljust w a @ '' '' @ ljust 7 b @ '' '' @ ljust 9 c @ '' '' @ ljust 6 d"

text \<open>\<open>_build_sort_key\<close>: \<open>(build.builder_name, build.build_number or 0)\<close>\<close>

definition build_sort_key :: "Build \<Rightarrow> string \<times> int" where
  "build_sort_key build =
     (builder_name build, if number_truthy (build_number build) then the (build_number build) else 0)"

text \<open>\<open>sorted(builds, key=_build_sort_key)\<close>: a stable sort by the key, tuples compared
  lexicographically, strings by code point.\<close>

definition sorted_builds :: "Build list \<Rightarrow> Build list" where
  "sorted_builds builds = sort_key build_sort_key builds"

text \<open>\<open>_log_build_statuses\<close>, on a dict from builds to the text of the status column:
  the lines it logs, or the failed assertion.\<close>

definition log_build_statuses :: "(Build \<times> string) list \<Rightarrow> py_error + log_record list" where
  "log_build_statuses build_statuses =
     (if build_statuses = [] then Inl AssertionError
      else
        let builder_names = map (\<lambda>kv. builder_name (fst kv)) build_statuses;
            name_column_width = foldl max 20 (map length builder_names)
        in Inr (Info (table_line name_column_width ''BUILDER'' ''NUMBER'' ''STATUS'' ''BUCKET'') #
                map (\<lambda>build.
                       Info (table_line name_column_width (builder_name build)
                               (number_column (build_number build))
                               (the (map_of build_statuses build)) (bucket build)))
                    (sorted_builds (map fst build_statuses))))"

text \<open>\<open>_warn_about_incomplete_results\<close>\<close>

definition warn_about_incomplete_results :: "resolver_env \<Rightarrow> BuildStatuses \<Rightarrow> log_record list" where
  "warn_about_incomplete_results env build_statuses =
     (let builds_with_incomplete_results = filter_incomplete env build_statuses in
      if builds_with_incomplete_results = [] then []
      else
        [Warning ''Some builds have incomplete results:''] @
        map (\<lambda>build. Warning (''  '' @ [CHR 0x22] @ builder_name build @ [CHR 0x22] @ '' build '' @
                               number_column (build_number build)))
            (sorted_builds (map fst builds_with_incomplete_results)) @
        [Warning ''Examples of incomplete results include:'',
         Warning ''  * Shard terminated the harness after timing out.'',
         Warning ''  * Harness exited early due to excessive unexpected failures.'',
         Warning ''  * Build failed on a non-test step.'',
         Warning ''Please consider retrying the failed builders or giving the builders more shards.'',
         Warning ''See https://chromium.googlesource.com/chromium/src/+/HEAD/docs/testing/web_test_expectations.md#handle-bot-timeouts''])"

text \<open>The two dict comprehensions of \<open>log_builds\<close>.\<close>

definition finished_builds :: "BuildStatuses \<Rightarrow> (Build \<times> string) list" where
  "finished_builds build_statuses =
     map (\<lambda>kv. (fst kv, case snd (snd kv) of None \<Rightarrow> ''--'' | Some r \<Rightarrow> if r = [] then ''--'' else r))
         (filter (\<lambda>kv. fst (snd kv) = ''COMPLETED'') build_statuses)"

definition unfinished_builds :: "BuildStatuses \<Rightarrow> (Build \<times> string) list" where
  "unfinished_builds build_statuses =
     map (\<lambda>kv. (fst kv, fst (snd kv)))
         (filter (\<lambda>kv. fst kv \<notin> fst ` set (finished_builds build_statuses) \<and>
                        fst (snd kv) \<noteq> ''MISSING'') build_statuses)"

text \<open>\<open>log_builds\<close>: the lines it logs, or the exception of \<open>_log_build_statuses\<close>.\<close>

definition log_builds :: "resolver_env \<Rightarrow> BuildStatuses \<Rightarrow> py_error + log_record list" where
  "log_builds env build_statuses =
     (let warnings = warn_about_incomplete_results env build_statuses;
          finished = finished_builds build_statuses
      in
      if length finished = length build_statuses then Inr (warnings @ [Info ''All builds finished.''])
      else
        bnd (if finished \<noteq> [] then
               bnd (log_build_statuses finished) (\<lambda>rows. Inr (Info ''Finished builds:'' # rows))
             else Inr [Info ''No finished builds.'']) (\<lambda>first.
          let unfinished = unfinished_builds build_statuses in
          if unfinished \<noteq> [] then
            bnd (log_build_statuses unfinished) (\<lambda>rows.
              Inr (warnings @ first @ Info ''Scheduled or started builds:'' # rows))
          else Inr (warnings @ first)))"

subsection \<open>\<open>fetch_or_trigger_try_jobs\<close>\<close>

text \<open>\<open>str.isdigit\<close>, on code points below 256: the decimal digits and the superscripts
  one, two and three (which \<open>int\<close> refuses).\<close>

definition py_isdigit :: "string \<Rightarrow> bool" where
  "py_isdigit s = (s \<noteq> [] \<and> list_all (\<lambda>c. is_digit c \<or> (of_char c :: nat) \<in> {178, 179, 185}) s)"

definition no_issue_message :: string where
  "no_issue_message = ''No issue number for current branch.''"

definition aborted_message :: string where
  "aborted_message = ''Aborted: no try jobs and '' @ [CHR 0x27] @ ''--no-trigger-jobs'' @ [CHR 0x27] @
     '' or '' @ [CHR 0x27] @ ''--dry-run'' @ [CHR 0x27] @ '' passed.''"

definition pending_message :: string where
  "pending_message =
     ''Once all pending try jobs have finished, please re-run the tool to fetch new results.''"

definition placeholder_build :: "resolver_env \<Rightarrow> string \<Rightarrow> Build" where
  "placeholder_build env builder =
     \<lparr>builder_name = builder, build_number = None, build_id = JNull, bucket = default_bucket env\<rparr>"

text \<open>\<open>set(builders) - {build.builder_name for build in build_statuses}\<close>\<close>

definition builders_without_results :: "string list \<Rightarrow> BuildStatuses \<Rightarrow> string list" where
  "builders_without_results builders build_statuses =
     filter (\<lambda>b. b \<notin> (\<lambda>kv. builder_name (fst kv)) ` set build_statuses) (remdups builders)"

definition fetch_or_trigger_try_jobs ::
  "resolver_env \<Rightarrow> string list \<Rightarrow> int option \<Rightarrow> resolver_state \<Rightarrow>
     (py_error + BuildStatuses) \<times> resolver_state" where
  "fetch_or_trigger_try_jobs env builders patchset s =
     (if \<not> py_isdigit (issue_number env) then
        (Inl (UnresolvedBuildException no_issue_message), s)
      else
        case int_of_str (issue_number env) of
          Inl e \<Rightarrow> (Inl e, s)
        | Inr issue \<Rightarrow>
            let s1 = s\<lparr>log_lines := log_lines s @ [FetchingStatus (length builders) issue patchset]\<rparr>;
                build_statuses = latest_try_jobs env (issue_number env) builders patchset
            in
            if build_statuses = [] \<and> \<not> can_trigger_jobs env then
              (Inl (UnresolvedBuildException aborted_message), s1)
            else
              let without = builders_without_results builders build_statuses;
                  triggering = (can_trigger_jobs env \<and> without \<noteq> []);
                  s2 = (if triggering then s1\<lparr>trigger_calls := trigger_calls s1 @ [without]\<rparr> else s1);
                  placeholder_status = (if triggering then TRIGGERED else MISSING)
              in (Inr (foldl (\<lambda>d b. dict_set d (placeholder_build env b) placeholder_status)
                         build_statuses without), s2))"

subsection \<open>\<open>resolve_builds\<close>\<close>

text \<open>The body of the first loop: what one requested build adds to the set of try
  builders to infer and to the client's queue.\<close>

definition request_build :: "string list \<times> bb_request list \<Rightarrow> Build \<Rightarrow> string list \<times> bb_request list" where
  "request_build acc build =
     (if number_truthy (build_number build) then
        (fst acc, snd acc @ [GetBuild build build_fields])
      else if bucket build = ''try'' then
        (set_add (fst acc) (builder_name build), snd acc)
      else
        (fst acc, snd acc @ [SearchBuilds (builder_predicate build) ''FAILURE'' build_fields 1]))"

text \<open>The second loop: completed try builds with a number are requested again.\<close>

definition rerequest_completed :: "BuildStatuses \<Rightarrow> bb_request list" where
  "rerequest_completed try_build_statuses =
     map (\<lambda>kv. GetBuild (fst kv) build_fields)
         (filter (\<lambda>kv. number_truthy (build_number (fst kv)) \<and> fst (snd kv) = ''COMPLETED'')
                 try_build_statuses)"

text \<open>From \<open>execute_batch()\<close> to the end of \<open>resolve_builds\<close>.\<close>

definition resolve_batch ::
  "resolver_env \<Rightarrow> BuildStatuses \<Rightarrow> resolver_state \<Rightarrow> (py_error + BuildStatuses) \<times> resolver_state" where
  "resolve_batch env build_statuses s =
     (case build_statuses_from_responses (classifier env) (execute_batch env (batch_requests s)) of
        Inl e \<Rightarrow> (Inl e, s)
      | Inr found \<Rightarrow>
          let all_statuses = dict_update build_statuses found in
          case (if all_statuses \<noteq> [] then log_builds env all_statuses else Inr []) of
            Inl e \<Rightarrow> (Inl e, s)
          | Inr logged \<Rightarrow>
              let s1 = s\<lparr>log_lines := log_lines s @ logged\<rparr> in
              if TRIGGERED \<in> snd ` set all_statuses then
                (Inl (UnresolvedBuildException pending_message), s1)
              else (Inr all_statuses, s1))"

definition resolve_builds ::
  "resolver_env \<Rightarrow> Build list \<Rightarrow> int option \<Rightarrow> resolver_state \<Rightarrow>
     (py_error + BuildStatuses) \<times> resolver_state" where
  "resolve_builds env builds patchset s =
     (let queued = foldl request_build ([], batch_requests s) builds;
          try_builders_to_infer = fst queued;
          s0 = s\<lparr>batch_requests := snd queued\<rparr>
      in
      if try_builders_to_infer \<noteq> [] then
        (case fetch_or_trigger_try_jobs env try_builders_to_infer patchset s0 of
           (Inl e, s1) \<Rightarrow> (Inl e, s1)
         | (Inr try_build_statuses, s1) \<Rightarrow>
             resolve_batch env (dict_update [] try_build_statuses)
               (s1\<lparr>batch_requests := batch_requests s1 @ rerequest_completed try_build_statuses\<rparr>))
      else resolve_batch env [] s0)"

text \<open>The set of try builders the first loop of \<open>resolve_builds\<close> collects, and the
  queue it leaves.\<close>

definition try_builders_to_infer :: "Build list \<Rightarrow> string list" where
  "try_builders_to_infer builds = fst (foldl request_build ([], []) builds)"

text \<open>A request for a try builder without a build number.\<close>

definition try_without_number :: "Build \<Rightarrow> bool" where
  "try_without_number build = (\<not> number_truthy (build_number build) \<and> bucket build = ''try'')"

text \<open>\<open>int(issue_number)\<close> does not fail on an issue number that \<open>isdigit\<close> accepts.\<close>

definition issue_number_converts :: "resolver_env \<Rightarrow> bool" where
  "issue_number_converts env =
     (case int_of_str (issue_number env) of
        Inl e \<Rightarrow> \<not> py_isdigit (issue_number env)
      | Inr n \<Rightarrow> True)"

text \<open>For a request of try builders: the builds \<open>latest_try_jobs\<close> finds for the builders
  the resolver asks about, and the builders it finds no build for.\<close>

definition found_try_jobs :: "resolver_env \<Rightarrow> Build list \<Rightarrow> int option \<Rightarrow> BuildStatuses" where
  "found_try_jobs env builds patchset =
     latest_try_jobs env (issue_number env) (try_builders_to_infer builds) patchset"

definition missing_try_builders :: "resolver_env \<Rightarrow> Build list \<Rightarrow> int option \<Rightarrow> string list" where
  "missing_try_builders env builds patchset =
     builders_without_results (try_builders_to_infer builds) (found_try_jobs env builds patchset)"

section \<open>Examples\<close>

text \<open>Two requests for one builder: build 5 and a build without a number.\<close>

definition linux_rel :: "int option \<Rightarrow> json \<Rightarrow> Build" where
  "linux_rel n i = \<lparr>builder_name = ''linux-rel'', build_number = n, build_id = i, bucket = ''try''\<rparr>"

definition mac_rel :: "int option \<Rightarrow> json \<Rightarrow> Build" where
  "mac_rel n i = \<lparr>builder_name = ''mac-rel'', build_number = n, build_id = i, bucket = ''try''\<rparr>"

text \<open>A revision with one finished try build, build 12345 of \<open>linux-rel\<close>, whose record
  (asked for again by the resolver) shows an interrupted shard.\<close>

definition example_latest_try_jobs :: "string \<Rightarrow> string list \<Rightarrow> int option \<Rightarrow> BuildStatuses" where
  "example_latest_try_jobs issue builders patchset =
     filter (\<lambda>kv. builder_name (fst kv) \<in> set builders)
       [(linux_rel (Some 12345) (JStr ''8765''), (''COMPLETED'', Some ''FAILURE''))]"

definition example_response :: "bb_request \<Rightarrow> json list" where
  "example_response request =
     (case request of
        GetBuild build fs \<Rightarrow>
          (if build = linux_rel (Some 12345) (JStr ''8765'')
           then [example_build [test_step ''https://logs.example/interrupted'']] else [])
      | SearchBuilds predicate status fs n \<Rightarrow> [])"

definition example_execute_batch :: "bb_request list \<Rightarrow> json list" where
  "example_execute_batch requests = concat (map example_response requests)"

definition example_resolver_env :: "bool \<Rightarrow> resolver_env" where
  "example_resolver_env trigger =
     \<lparr>classifier = example_env, issue_number = ''4012345'',
      latest_try_jobs = example_latest_try_jobs, execute_batch = example_execute_batch,
      filter_incomplete = filter (\<lambda>kv. snd kv = (''INFRA_FAILURE'', None)),
      can_trigger_jobs = trigger, default_bucket = ''try''\<rparr>"

definition empty_state :: resolver_state where
  "empty_state = \<lparr>batch_requests = [], trigger_calls = [], log_lines = []\<rparr>"

text \<open>The same revision, with a batch that returns the record of \<open>linux-rel\<close> with a
  summary whose first shard is null.\<close>

definition null_shard_resolver_env :: resolver_env where
  "null_shard_resolver_env =
     \<lparr>classifier = example_env, issue_number = ''4012345'',
      latest_try_jobs = example_latest_try_jobs,
      execute_batch = (\<lambda>requests. [example_build [test_step ''https://logs.example/null-shard'']]),
      filter_incomplete = filter (\<lambda>kv. snd kv = (''INFRA_FAILURE'', None)),
      can_trigger_jobs = True, default_bucket = ''try''\<rparr>"


section \<open>Properties\<close>

lemma bnd_Inr [simp]: "bnd (Inr v) f = f v"
  by (simp add: bnd_def)

lemma bnd_Inl [simp]: "bnd (Inl e) f = Inl e"
  by (simp add: bnd_def)

lemma shard_interrupted_exit_code:
  "exit_code_of sh = Some n \<Longrightarrow> shard_interrupted codes sh = Inr (n \<in> set codes)"
  by (auto simp: exit_code_of_def shard_interrupted_def split: json.splits option.splits sum.splits)

lemma any_shard_interrupted_wf:
  "list_all (\<lambda>sh. exit_code_of sh \<noteq> None) shs \<Longrightarrow>
   any_shard_interrupted codes shs = Inr (\<exists>sh\<in>set shs. the (exit_code_of sh) \<in> set codes)"
proof (induction shs)
  case Nil
  then show ?case by simp
next
  case (Cons sh shs)
  then obtain n where n: "exit_code_of sh = Some n" by auto
  from Cons have "any_shard_interrupted codes shs =
      Inr (\<exists>sh\<in>set shs. the (exit_code_of sh) \<in> set codes)" by simp
  with n show ?case
    by (simp add: shard_interrupted_exit_code)
qed

lemma shards_of_read:
  assumes "shards_of content = Some shs"
  shows "bnd (py_get (if py_truthy content then content else JObj []) ''shards'' (JList [])) py_iter = Inr shs"
proof (cases "py_truthy content")
  case False
  with assms show ?thesis by (simp add: shards_of_def)
next
  case True
  with assms obtain kvs where kvs: "content = JObj kvs"
    by (cases content) (simp_all add: shards_of_def)
  show ?thesis
  proof (cases "map_of kvs ''shards''")
    case None
    with True kvs assms show ?thesis by (simp add: shards_of_def)
  next
    case (Some shards)
    with True kvs assms show ?thesis
      by (cases "py_iter shards") (simp_all add: shards_of_def)
  qed
qed

lemma bnd_assoc: "bnd (bnd m f) g = bnd m (\<lambda>v. bnd (f v) g)"
  by (cases m) simp_all

lemma summary_shards_wf:
  assumes "wf_summary content"
  shows "bnd (py_get (if py_truthy content then content else JObj []) ''shards'' (JList [])) (\<lambda>shards.
         bnd (py_iter shards) (\<lambda>shs. any_shard_interrupted codes shs)) =
         Inr (\<exists>c\<in>set (summary_exit_codes content). c \<in> set codes)"
proof -
  from assms obtain shs where shs: "shards_of content = Some shs"
    and wf: "list_all (\<lambda>sh. exit_code_of sh \<noteq> None) shs"
    by (cases "shards_of content") (simp_all add: wf_summary_def)
  have "bnd (py_get (if py_truthy content then content else JObj []) ''shards'' (JList [])) (\<lambda>shards.
         bnd (py_iter shards) (\<lambda>shs. any_shard_interrupted codes shs)) =
        bnd (bnd (py_get (if py_truthy content then content else JObj []) ''shards'' (JList [])) py_iter)
          (any_shard_interrupted codes)"
    by (simp only: bnd_assoc)
  also have "\<dots> = any_shard_interrupted codes shs"
    by (simp only: shards_of_read [OF shs] bnd_Inr)
  also have "\<dots> = Inr (\<exists>c\<in>set (summary_exit_codes content). c \<in> set codes)"
    by (simp add: any_shard_interrupted_wf [OF wf] summary_exit_codes_def shs)
  finally show ?thesis .
qed

lemma step_name_matchesD:
  assumes "step_name_matches step"
  shows "\<exists>kvs n. step = JObj kvs \<and> map_of kvs ''name'' = Some (JStr n) \<and>
           fullmatch run_web_tests_pattern n"
proof (cases step)
  case (JObj kvs)
  show ?thesis
  proof (cases "map_of kvs ''name''")
    case None
    with JObj assms show ?thesis by (simp add: step_name_matches_def)
  next
    case (Some v)
    with JObj assms show ?thesis by (cases v) (simp_all add: step_name_matches_def)
  qed
qed (use assms in \<open>simp_all add: step_name_matches_def\<close>)

lemma first_fetched_Cons:
  "first_fetched fetch (url # urls) =
     (case fetch url of
        Inl e \<Rightarrow> (if e = RequestException then first_fetched fetch urls else JNull)
      | Inr content \<Rightarrow> content)"
  by (cases "fetch url") (auto simp: first_fetched_def)

lemma first_fetched_Nil: "first_fetched fetch [] = JNull"
  by (simp add: first_fetched_def)

lemma wf_summary_null: "wf_summary JNull"
  by (simp add: wf_summary_def shards_of_def)

lemma fetch_from_logs_wf:
  "list_all (wf_log fetch) lgs \<Longrightarrow>
   fetch_from_logs fetch ''chromium_swarming.summary'' lgs =
     Inr (first_fetched fetch (concat (map log_summary_url lgs))) \<and>
   wf_summary (first_fetched fetch (concat (map log_summary_url lgs)))"
proof (induction lgs)
  case Nil
  then show ?case by (simp add: first_fetched_Nil wf_summary_null)
next
  case (Cons lg lgs)
  from Cons.prems obtain kvs n where lg: "lg = JObj kvs" and n: "map_of kvs ''name'' = Some n"
    by (cases lg) (auto simp: wf_log_def split: option.splits)
  from Cons have IH: "fetch_from_logs fetch ''chromium_swarming.summary'' lgs =
     Inr (first_fetched fetch (concat (map log_summary_url lgs)))"
    and IHwf: "wf_summary (first_fetched fetch (concat (map log_summary_url lgs)))" by simp_all
  show ?case
  proof (cases "n = JStr ''chromium_swarming.summary''")
    case False
    with n have "log_summary_url (JObj kvs) = []" by (simp add: log_summary_url_def)
    with False lg n IH IHwf show ?thesis by simp
  next
    case True
    with Cons.prems lg n obtain url where url: "map_of kvs ''viewUrl'' = Some url"
      and f: "case fetch url of Inl e \<Rightarrow> e = RequestException | Inr content \<Rightarrow> wf_summary content"
      by (auto simp: wf_log_def split: option.splits)
    from True n url have u: "log_summary_url (JObj kvs) = [url]" by (simp add: log_summary_url_def)
    show ?thesis
    proof (cases "fetch url")
      case (Inl e)
      with f have "e = RequestException" by simp
      with Inl True lg n url IH IHwf show ?thesis by (simp add: u first_fetched_Cons)
    next
      case (Inr content)
      with f have "wf_summary content" by simp
      with Inr True lg n url show ?thesis by (simp add: u first_fetched_Cons)
    qed
  qed
qed

lemma fetch_swarming_summary_wf:
  assumes "wf_step fetch step" and "step_name_matches step"
  shows "fetch_swarming_summary fetch step = Inr (summary_of fetch step) \<and>
         wf_summary (summary_of fetch step)"
proof -
  from step_name_matchesD [OF assms(2)] obtain kvs n where kvs: "step = JObj kvs"
    "map_of kvs ''name'' = Some (JStr n)" "fullmatch run_web_tests_pattern n" by blast
  show ?thesis
  proof (cases "map_of kvs ''logs''")
    case None
    with kvs show ?thesis
      by (simp add: fetch_swarming_summary_def summary_of_def summary_urls_def first_fetched_Nil
          wf_summary_null)
  next
    case (Some logs)
    with assms(1) kvs obtain lgs where "logs = JList lgs" and "list_all (wf_log fetch) lgs"
      by (cases logs) (simp_all add: wf_step_def)
    with Some kvs fetch_from_logs_wf [of fetch lgs] show ?thesis
      by (simp add: fetch_swarming_summary_def summary_of_def summary_urls_def)
  qed
qed

lemma step_interrupted_wf:
  assumes "wf_step (fetch_json env) step"
  shows "step_interrupted env step = Inr (step_shows_interruption env step)"
proof (cases "step_name_matches step")
  case True
  from fetch_swarming_summary_wf [OF assms True]
  have c: "fetch_swarming_summary (fetch_json env) step = Inr (summary_of (fetch_json env) step)"
    and wf: "wf_summary (summary_of (fetch_json env) step)"
    by simp_all
  from step_name_matchesD [OF True] obtain kvs n where k: "step = JObj kvs"
    "map_of kvs ''name'' = Some (JStr n)" "fullmatch run_web_tests_pattern n"
    by blast
  then have s1: "py_getitem step ''name'' = Inr (JStr n)"
    and s2: "py_fullmatch run_web_tests_pattern (JStr n) = Inr True" by simp_all
  show ?thesis
    unfolding step_interrupted_def
    by (simp only: s1 s2 bnd_Inr if_True c summary_shards_wf [OF wf] step_shows_interruption_def
        True simp_thms)
next
  case False
  with assms show ?thesis
    by (auto simp: step_interrupted_def step_shows_interruption_def wf_step_def
        step_name_matches_def split: json.splits option.splits)
qed

lemma any_step_interrupted_wf:
  "list_all (wf_step (fetch_json env)) sts \<Longrightarrow>
   any_step_interrupted env sts = Inr (\<exists>st\<in>set sts. step_shows_interruption env st)"
  by (induction sts) (auto simp: step_interrupted_wf)

lemma failure_type_read:
  assumes "failure_type_of raw_build = Some ft"
  shows "bnd (py_get raw_build ''output'' (JObj [])) (\<lambda>output.
       bnd (py_get output ''properties'' (JObj [])) (\<lambda>output_props.
       bnd (py_get output_props ''failure_type'' JNull) k)) = k ft"
  using assms by (auto simp: failure_type_of_def split: option.splits json.splits)

lemma not_in_hashable:
  "hashable ft \<Longrightarrow> not_in_none_test_failure ft = Inr (ft \<noteq> JNull \<and> ft \<noteq> JStr ''TEST_FAILURE'')"
  by (cases ft) (auto simp: hashable_def)

lemma classify_wf:
  assumes wf: "wf_raw_build (fetch_json env) raw_build"
      and ft: "failure_type_of raw_build = Some ft" and h: "hashable ft"
  shows "status_if_interrupted env raw_build =
         from_bb_status env
           (if (ft \<noteq> JNull \<and> ft \<noteq> JStr ''TEST_FAILURE'') \<or>
               (\<exists>st\<in>set (steps_of raw_build). step_shows_interruption env st)
            then JStr ''INFRA_FAILURE'' else reported_status raw_build)"
proof -
  from wf obtain kvs where kvs: "raw_build = JObj kvs"
    by (auto simp: wf_raw_build_def split: json.splits)
  from wf kvs obtain s where s: "map_of kvs ''status'' = Some s"
    by (auto simp: wf_raw_build_def)
  note pre = failure_type_read [OF ft]
  note nin = not_in_hashable [OF h]
  have steps: "bnd (py_get raw_build ''steps'' (JList [])) (\<lambda>steps.
         bnd (py_iter steps) (\<lambda>sts. any_step_interrupted env sts)) =
       Inr (\<exists>st\<in>set (steps_of raw_build). step_shows_interruption env st)"
  proof (cases "map_of kvs ''steps''")
    case None
    with kvs show ?thesis by (simp add: steps_of_def)
  next
    case (Some steps)
    with wf kvs obtain sts where "steps = JList sts" "list_all (wf_step (fetch_json env)) sts"
      by (auto simp: wf_raw_build_def split: json.splits)
    with Some kvs show ?thesis
      by (simp add: steps_of_def any_step_interrupted_wf)
  qed
  show ?thesis
    unfolding status_if_interrupted_def pre
    using nin steps kvs s
    by (auto simp: reported_status_def bnd_def split: sum.splits)
qed

text \<open>
  Claim C1. A raw build record whose \<open>output.properties.failure_type\<close> is present and is
  neither null nor \<open>"TEST_FAILURE"\<close> is classified as \<open>from_bb_status('INFRA_FAILURE')\<close>,
  whatever its steps (and the rest of the record) hold. The value is compared through a set
  membership test, so it has to be hashable: a string, a number or a boolean.
\<close>

theorem failure_type_forces_infra_failure:
  assumes "failure_type_of raw_build = Some ft"
      and "ft \<noteq> JNull" and "ft \<noteq> JStr ''TEST_FAILURE''" and "hashable ft"
  shows "status_if_interrupted env raw_build = from_bb_status env (JStr ''INFRA_FAILURE'')"
proof -
  from assms(1) obtain kvs where kvs: "raw_build = JObj kvs"
    by (auto simp: failure_type_of_def split: json.splits)
  from assms(1) kvs have pre: "\<And>k. bnd (py_get raw_build ''output'' (JObj [])) (\<lambda>output.
       bnd (py_get output ''properties'' (JObj [])) (\<lambda>output_props.
       bnd (py_get output_props ''failure_type'' JNull) k)) = k ft"
    by (auto simp: failure_type_of_def split: option.splits json.splits)
  from assms(2-4) have "not_in_none_test_failure ft = Inr True"
    by (cases ft) (auto simp: hashable_def)
  then show ?thesis
    unfolding status_if_interrupted_def pre by simp
qed

theorem failure_type_forces_infra_failure_witness:
  "failure_type_of (JObj [(''status'', JStr ''FAILURE''),
      (''output'', JObj [(''properties'', JObj [(''failure_type'', JStr ''COMPILE_FAILURE'')])]),
      (''steps'', JInt 7)]) = Some (JStr ''COMPILE_FAILURE'') \<and>
   hashable (JStr ''COMPILE_FAILURE'') \<and>
   status_if_interrupted example_env (JObj [(''status'', JStr ''FAILURE''),
      (''output'', JObj [(''properties'', JObj [(''failure_type'', JStr ''COMPILE_FAILURE'')])]),
      (''steps'', JInt 7)]) = Inr (''INFRA_FAILURE'', None)"
proof -
  let ?rb = "JObj [(''status'', JStr ''FAILURE''),
      (''output'', JObj [(''properties'', JObj [(''failure_type'', JStr ''COMPILE_FAILURE'')])]),
      (''steps'', JInt 7)]"
  have a: "failure_type_of ?rb = Some (JStr ''COMPILE_FAILURE'')"
    by (simp add: failure_type_of_def)
  have b: "hashable (JStr ''COMPILE_FAILURE'')" by (simp add: hashable_def)
  have c: "from_bb_status example_env (JStr ''INFRA_FAILURE'') = Inr (''INFRA_FAILURE'', None)"
    by (simp add: example_env_def example_from_bb_status_def)
  from failure_type_forces_infra_failure [OF a _ _ b, of example_env] a b c show ?thesis
    by simp
qed




text \<open>
  Claim C10. A shard without an \<open>exit_code\<close> field is read as exit code 0: it is
  interrupted exactly when 0 is one of \<open>ERROR_CODES\<close>, as the same shard with
  \<open>exit_code = 0\<close> is. When 0 is not an error code, such a shard never makes
  \<open>any(map(_shard_interrupted, shards))\<close> true: the scan goes on to the other shards.
\<close>

theorem shard_without_exit_code:
  assumes "map_of kvs ''exit_code'' = None"
  shows "shard_interrupted codes (JObj kvs) = Inr (0 \<in> set codes) \<and>
         shard_interrupted codes (JObj kvs) =
           shard_interrupted codes (JObj ((''exit_code'', JInt 0) # kvs)) \<and>
         (0 \<notin> set codes \<longrightarrow>
            any_shard_interrupted codes (JObj kvs # shs) = any_shard_interrupted codes shs)"
  using assms by (simp add: shard_interrupted_def)

theorem shard_without_exit_code_witness:
  "map_of [(''state'', JStr ''EXPIRED'')] ''exit_code'' = None \<and>
   0 \<notin> set (ERROR_CODES example_env) \<and>
   shard_interrupted (ERROR_CODES example_env) (JObj [(''state'', JStr ''EXPIRED'')]) = Inr False \<and>
   any_shard_interrupted (ERROR_CODES example_env) [JObj [(''state'', JStr ''EXPIRED'')]] = Inr False"
proof -
  have a: "map_of [(''state'', JStr ''EXPIRED'')] ''exit_code'' = None" by simp
  have b: "0 \<notin> set (ERROR_CODES example_env)" by (simp add: example_env_def)
  from shard_without_exit_code [OF a, of "ERROR_CODES example_env" "[]"] a b
  show ?thesis by simp
qed

lemma bnd_not_raised:
  assumes "m \<noteq> Inl e" and "\<And>v. f v \<noteq> Inl e"
  shows "bnd m f \<noteq> Inl e"
  using assms by (cases m) auto

lemma if_not_raised:
  assumes "c \<Longrightarrow> a \<noteq> Inl e" and "\<not> c \<Longrightarrow> b \<noteq> Inl e"
  shows "(if c then a else b) \<noteq> Inl e"
  using assms by simp

lemma Inr_not_raised: "Inr v \<noteq> Inl e"
  by simp

lemma py_get_not_raised: "not_builtin e \<Longrightarrow> py_get v k d \<noteq> Inl e"
  by (cases v) (auto simp: not_builtin_def)

lemma py_getitem_not_raised: "not_builtin e \<Longrightarrow> py_getitem v k \<noteq> Inl e"
  by (cases v) (auto simp: not_builtin_def split: option.splits)

lemma py_iter_not_raised: "not_builtin e \<Longrightarrow> py_iter v \<noteq> Inl e"
  by (cases v) (auto simp: not_builtin_def)

lemma py_fullmatch_not_raised: "not_builtin e \<Longrightarrow> py_fullmatch r v \<noteq> Inl e"
  by (cases v) (auto simp: not_builtin_def)

lemma not_in_not_raised: "not_builtin e \<Longrightarrow> not_in_none_test_failure v \<noteq> Inl e"
  by (cases v) (auto simp: not_builtin_def)

lemma int_of_str_not_raised: "not_builtin e \<Longrightarrow> int_of_str s \<noteq> Inl e"
  by (auto simp: int_of_str_def not_builtin_def split: list.splits option.splits)

lemma py_int_not_raised: "not_builtin e \<Longrightarrow> py_int v \<noteq> Inl e"
  by (cases v) (auto simp: int_of_str_not_raised not_builtin_def)

lemma shard_interrupted_not_raised: "not_builtin e \<Longrightarrow> shard_interrupted codes sh \<noteq> Inl e"
  unfolding shard_interrupted_def
  by (intro bnd_not_raised py_get_not_raised py_int_not_raised Inr_not_raised)

lemma any_shard_interrupted_not_raised:
  assumes "not_builtin e"
  shows "any_shard_interrupted codes shs \<noteq> Inl e"
proof (induction shs)
  case Nil
  show ?case by simp
next
  case (Cons sh shs)
  show ?case
    unfolding any_shard_interrupted.simps
    by (intro bnd_not_raised if_not_raised shard_interrupted_not_raised [OF assms] Inr_not_raised Cons.IH)
qed

lemma fetch_result_not_raised:
  assumes "rest \<noteq> Inl e" and "r = Inl e \<longrightarrow> e = RequestException"
  shows "(case r of Inl x \<Rightarrow> (if x = RequestException then rest else Inl x) | Inr content \<Rightarrow> Inr content)
         \<noteq> Inl e"
  using assms by (cases r) auto

lemma fetch_from_logs_not_raised:
  assumes "not_builtin e" and "\<forall>url. fetch url = Inl e \<longrightarrow> e = RequestException"
  shows "fetch_from_logs fetch log_name lgs \<noteq> Inl e"
proof (induction lgs)
  case Nil
  show ?case by simp
next
  case (Cons lg lgs)
  from assms(2) have f: "\<And>url. fetch url = Inl e \<longrightarrow> e = RequestException" by blast
  show ?case
    unfolding fetch_from_logs.simps
    by (intro bnd_not_raised if_not_raised py_getitem_not_raised [OF assms(1)]
        fetch_result_not_raised Cons.IH f)
qed

lemma fetch_swarming_summary_not_raised:
  assumes "not_builtin e" and "\<forall>url. fetch url = Inl e \<longrightarrow> e = RequestException"
  shows "fetch_swarming_summary fetch step \<noteq> Inl e"
  unfolding fetch_swarming_summary_def
  by (intro bnd_not_raised py_get_not_raised [OF assms(1)] py_iter_not_raised [OF assms(1)]
      fetch_from_logs_not_raised [OF assms])

lemma step_interrupted_not_raised:
  assumes "not_builtin e" and "\<forall>url. fetch_json env url = Inl e \<longrightarrow> e = RequestException"
  shows "step_interrupted env step \<noteq> Inl e"
  unfolding step_interrupted_def
  by (intro bnd_not_raised if_not_raised py_getitem_not_raised [OF assms(1)]
      py_fullmatch_not_raised [OF assms(1)] py_get_not_raised [OF assms(1)]
      py_iter_not_raised [OF assms(1)] fetch_swarming_summary_not_raised [OF assms]
      any_shard_interrupted_not_raised [OF assms(1)] Inr_not_raised)

lemma any_step_interrupted_not_raised:
  assumes "not_builtin e" and "\<forall>url. fetch_json env url = Inl e \<longrightarrow> e = RequestException"
  shows "any_step_interrupted env sts \<noteq> Inl e"
proof (induction sts)
  case Nil
  show ?case by simp
next
  case (Cons st sts)
  show ?case
    unfolding any_step_interrupted.simps
    by (intro bnd_not_raised if_not_raised step_interrupted_not_raised [OF assms] Inr_not_raised Cons.IH)
qed

lemma status_if_interrupted_not_raised:
  assumes "not_builtin e" and "\<forall>url. fetch_json env url = Inl e \<longrightarrow> e = RequestException"
      and "\<forall>x. from_bb_status env x \<noteq> Inl e"
  shows "status_if_interrupted env raw_build \<noteq> Inl e"
proof -
  from assms(3) have f: "\<And>x. from_bb_status env x \<noteq> Inl e" by simp
  show ?thesis
    unfolding status_if_interrupted_def
    by (intro bnd_not_raised if_not_raised py_get_not_raised [OF assms(1)]
        py_iter_not_raised [OF assms(1)] py_getitem_not_raised [OF assms(1)]
        not_in_not_raised [OF assms(1)] any_step_interrupted_not_raised [OF assms(1,2)] f)
qed

lemma fetch_from_logs_skip:
  assumes "py_getitem lg ''name'' = Inr (JStr log_name)"
      and "py_getitem lg ''viewUrl'' = Inr url" and "fetch url = Inl RequestException"
  shows "fetch_from_logs fetch log_name (before @ lg # after) =
         fetch_from_logs fetch log_name (before @ after)"
proof (induction before)
  case Nil
  from assms show ?case by simp
next
  case (Cons l before)
  show ?case
    unfolding append_Cons fetch_from_logs.simps Cons.IH by (rule refl)
qed

lemma with_logs_read:
  "py_getitem (with_logs (JObj kvs) lgs) ''name'' = py_getitem (JObj kvs) ''name''"
  "py_get (with_logs (JObj kvs) lgs) ''logs'' d = Inr (JList lgs)"
  by (simp_all add: with_logs_def)

lemma step_interrupted_logs:
  assumes "map_of kvs ''logs'' = Some (JList lgs)"
      and "fetch_from_logs (fetch_json env) ''chromium_swarming.summary'' lgs =
           fetch_from_logs (fetch_json env) ''chromium_swarming.summary'' lgs'"
  shows "step_interrupted env (JObj kvs) = step_interrupted env (with_logs (JObj kvs) lgs')"
proof -
  from assms have "fetch_swarming_summary (fetch_json env) (JObj kvs) =
      fetch_swarming_summary (fetch_json env) (with_logs (JObj kvs) lgs')"
    by (simp add: fetch_swarming_summary_def with_logs_def)
  then show ?thesis
    unfolding step_interrupted_def by (simp only: with_logs_read)
qed

lemma first_fetched_all_fail:
  "\<forall>url\<in>set urls. fetch url = Inl RequestException \<Longrightarrow> first_fetched fetch urls = JNull"
  by (induction urls) (simp_all add: first_fetched_Nil first_fetched_Cons)

lemma summary_exit_codes_null: "summary_exit_codes JNull = []"
  by (simp add: summary_exit_codes_def shards_of_def)

lemma step_matching_read:
  assumes "step_name_matches step"
  shows "step_interrupted env step =
     bnd (fetch_swarming_summary (fetch_json env) step) (\<lambda>summary.
     bnd (py_get (if py_truthy summary then summary else JObj []) ''shards'' (JList [])) (\<lambda>shards.
     bnd (py_iter shards) (\<lambda>shs. any_shard_interrupted (ERROR_CODES env) shs)))"
proof -
  from step_name_matchesD [OF assms] obtain kvs n where k: "step = JObj kvs"
    "map_of kvs ''name'' = Some (JStr n)" "fullmatch run_web_tests_pattern n"
    by blast
  then have s1: "py_getitem step ''name'' = Inr (JStr n)"
    and s2: "py_fullmatch run_web_tests_pattern (JStr n) = Inr True" by simp_all
  show ?thesis
    unfolding step_interrupted_def by (simp only: s1 s2 bnd_Inr if_True)
qed

lemma step_falsy_summary:
  assumes "step_name_matches step" and "fetch_swarming_summary (fetch_json env) step = Inr content"
      and "\<not> py_truthy content"
  shows "step_interrupted env step = Inr False"
  using assms(2,3) by (simp add: step_matching_read [OF assms(1)])

lemma step_truthy_non_dict_summary:
  assumes "step_name_matches step" and "fetch_swarming_summary (fetch_json env) step = Inr content"
      and "py_truthy content" and "\<forall>kvs. content \<noteq> JObj kvs"
  shows "step_interrupted env step = Inl AttributeError"
  using assms(2,3,4) by (cases content) (simp_all add: step_matching_read [OF assms(1)])

lemma any_step_interrupted_raises:
  assumes "\<forall>s\<in>set before. step_interrupted env s = Inr False" and "step_interrupted env st = Inl e"
  shows "any_step_interrupted env (before @ st # after) = Inl e"
  using assms by (induction before) simp_all

lemma classify_raises:
  assumes "failure_type_of raw_build = Some JNull \<or> failure_type_of raw_build = Some (JStr ''TEST_FAILURE'')"
      and "py_get raw_build ''steps'' (JList []) = Inr (JList (before @ st # after))"
      and "\<forall>s\<in>set before. step_interrupted env s = Inr False" and "step_interrupted env st = Inl e"
  shows "status_if_interrupted env raw_build = Inl e"
proof -
  from assms(1) obtain ft where ft: "failure_type_of raw_build = Some ft"
    and nd: "not_in_none_test_failure ft = Inr False" by auto
  show ?thesis
    unfolding status_if_interrupted_def failure_type_read [OF ft]
    by (simp add: nd assms(2) any_step_interrupted_raises [OF assms(3,4)])
qed

text \<open>
  Claim C6 as stated fails for content that is fetched and decoded but is not a summary:
  here the content is a JSON array, \<open>(summary or {}).get\<close> is called on a list and the
  \<open>AttributeError\<close> gets out of \<open>_status_if_interrupted\<close>.
\<close>

theorem malformed_summary_raises:
  "status_if_interrupted example_env (example_build [test_step ''https://logs.example/array'']) =
     Inl AttributeError"
  by code_simp

text \<open>
  Claim C6, as amended. A \<open>RequestException\<close> of a summary fetch never gets out of the
  classification (no \<open>RequestException\<close> leaves \<open>_status_if_interrupted\<close> unless
  \<open>from_bb_status\<close> raises one). The log whose fetch raised it is skipped: the step is
  read as the same step without that log. A well-formed record whose matching steps have
  only failing summary fetches is classified by its failure type and the status it
  reports. Content that is fetched and decoded is used as it is: falsy content counts as
  no summary; truthy content that is not a dict makes the step raise \<open>AttributeError\<close>;
  and an exception of a step leaves the classification when the failure type does not
  disqualify the record and no earlier step showed an interruption.
\<close>

theorem request_exception_is_suppressed:
  "((\<forall>x. from_bb_status env x \<noteq> Inl RequestException) \<longrightarrow>
      status_if_interrupted env raw_build \<noteq> Inl RequestException) \<and>
   (map_of kvs ''logs'' = Some (JList (before @ lg # after)) \<and>
    py_getitem lg ''name'' = Inr (JStr ''chromium_swarming.summary'') \<and>
    py_getitem lg ''viewUrl'' = Inr url \<and> fetch_json env url = Inl RequestException \<longrightarrow>
      step_interrupted env (JObj kvs) = step_interrupted env (with_logs (JObj kvs) (before @ after))) \<and>
   (wf_raw_build (fetch_json env) raw_build \<and> failure_type_of raw_build = Some ft \<and> hashable ft \<and>
    (\<forall>st\<in>set (steps_of raw_build). step_name_matches st \<longrightarrow>
       (\<forall>u\<in>set (summary_urls st). fetch_json env u = Inl RequestException)) \<longrightarrow>
      status_if_interrupted env raw_build =
        from_bb_status env
          (if ft \<noteq> JNull \<and> ft \<noteq> JStr ''TEST_FAILURE'' then JStr ''INFRA_FAILURE''
           else reported_status raw_build)) \<and>
   (step_name_matches step \<and> fetch_swarming_summary (fetch_json env) step = Inr content \<and>
    \<not> py_truthy content \<longrightarrow>
      step_interrupted env step = Inr False) \<and>
   (step_name_matches step \<and> fetch_swarming_summary (fetch_json env) step = Inr content \<and>
    py_truthy content \<and> (\<forall>c. content \<noteq> JObj c) \<longrightarrow>
      step_interrupted env step = Inl AttributeError) \<and>
   ((failure_type_of raw_build = Some JNull \<or> failure_type_of raw_build = Some (JStr ''TEST_FAILURE'')) \<and>
    py_get raw_build ''steps'' (JList []) = Inr (JList (earlier @ step # later)) \<and>
    (\<forall>s\<in>set earlier. step_interrupted env s = Inr False) \<and> step_interrupted env step = Inl e \<longrightarrow>
      status_if_interrupted env raw_build = Inl e)"
proof (intro conjI impI)
  assume "\<forall>x. from_bb_status env x \<noteq> Inl RequestException"
  then show "status_if_interrupted env raw_build \<noteq> Inl RequestException"
    by (intro status_if_interrupted_not_raised) (simp_all add: not_builtin_def)
next
  assume a: "map_of kvs ''logs'' = Some (JList (before @ lg # after)) \<and>
    py_getitem lg ''name'' = Inr (JStr ''chromium_swarming.summary'') \<and>
    py_getitem lg ''viewUrl'' = Inr url \<and> fetch_json env url = Inl RequestException"
  then have l: "map_of kvs ''logs'' = Some (JList (before @ lg # after))"
    and n: "py_getitem lg ''name'' = Inr (JStr ''chromium_swarming.summary'')"
    and u: "py_getitem lg ''viewUrl'' = Inr url" and f: "fetch_json env url = Inl RequestException"
    by simp_all
  from l fetch_from_logs_skip [of lg "''chromium_swarming.summary''" url "fetch_json env" before after, OF n u f]
  show "step_interrupted env (JObj kvs) = step_interrupted env (with_logs (JObj kvs) (before @ after))"
    by (rule step_interrupted_logs)
next
  assume a: "wf_raw_build (fetch_json env) raw_build \<and> failure_type_of raw_build = Some ft \<and> hashable ft \<and>
    (\<forall>st\<in>set (steps_of raw_build). step_name_matches st \<longrightarrow>
       (\<forall>u\<in>set (summary_urls st). fetch_json env u = Inl RequestException))"
  then have wf: "wf_raw_build (fetch_json env) raw_build"
    and ft: "failure_type_of raw_build = Some ft" and h: "hashable ft" by simp_all
  have "\<not> (\<exists>st\<in>set (steps_of raw_build). step_shows_interruption env st)"
  proof
    assume "\<exists>st\<in>set (steps_of raw_build). step_shows_interruption env st"
    then obtain st where st: "st \<in> set (steps_of raw_build)" and i: "step_shows_interruption env st"
      by blast
    from i have m: "step_name_matches st" by (simp add: step_shows_interruption_def)
    with a st have "\<forall>u\<in>set (summary_urls st). fetch_json env u = Inl RequestException" by blast
    then have "summary_of (fetch_json env) st = JNull"
      unfolding summary_of_def by (rule first_fetched_all_fail)
    with i show False by (simp add: step_shows_interruption_def summary_exit_codes_null)
  qed
  with classify_wf [OF wf ft h]
  show "status_if_interrupted env raw_build =
        from_bb_status env
          (if ft \<noteq> JNull \<and> ft \<noteq> JStr ''TEST_FAILURE'' then JStr ''INFRA_FAILURE''
           else reported_status raw_build)"
    by simp
next
  assume "step_name_matches step \<and> fetch_swarming_summary (fetch_json env) step = Inr content \<and>
    \<not> py_truthy content"
  then have "step_name_matches step" "fetch_swarming_summary (fetch_json env) step = Inr content"
    "\<not> py_truthy content" by simp_all
  then show "step_interrupted env step = Inr False"
    by (rule step_falsy_summary)
next
  assume "step_name_matches step \<and> fetch_swarming_summary (fetch_json env) step = Inr content \<and>
    py_truthy content \<and> (\<forall>c. content \<noteq> JObj c)"
  then have "step_name_matches step" "fetch_swarming_summary (fetch_json env) step = Inr content"
    "py_truthy content" "\<forall>c. content \<noteq> JObj c" by simp_all
  then show "step_interrupted env step = Inl AttributeError"
    by (rule step_truthy_non_dict_summary)
next
  assume "(failure_type_of raw_build = Some JNull \<or> failure_type_of raw_build = Some (JStr ''TEST_FAILURE'')) \<and>
    py_get raw_build ''steps'' (JList []) = Inr (JList (earlier @ step # later)) \<and>
    (\<forall>s\<in>set earlier. step_interrupted env s = Inr False) \<and> step_interrupted env step = Inl e"
  then have "failure_type_of raw_build = Some JNull \<or> failure_type_of raw_build = Some (JStr ''TEST_FAILURE'')"
    "py_get raw_build ''steps'' (JList []) = Inr (JList (earlier @ step # later))"
    "\<forall>s\<in>set earlier. step_interrupted env s = Inr False" "step_interrupted env step = Inl e"
    by simp_all
  then show "status_if_interrupted env raw_build = Inl e"
    by (rule classify_raises)
qed

lemma example_from_bb_status_not_request: "example_from_bb_status x \<noteq> Inl RequestException"
  by (cases x) (auto simp: example_from_bb_status_def)

theorem request_exception_is_suppressed_witness:
  "(\<forall>x. from_bb_status example_env x \<noteq> Inl RequestException) \<and>
   status_if_interrupted example_env (example_build [test_step ''https://logs.example/unreachable''])
     \<noteq> Inl RequestException \<and>
   fetch_json example_env (JStr ''https://logs.example/unreachable'') = Inl RequestException \<and>
   step_interrupted example_env
     (JObj [(''name'', JStr ''blink_web_tests (with patch)''),
            (''logs'', JList [summary_log ''https://logs.example/unreachable'',
                              summary_log ''https://logs.example/interrupted''])]) =
   step_interrupted example_env
     (with_logs (JObj [(''name'', JStr ''blink_web_tests (with patch)''),
            (''logs'', JList [summary_log ''https://logs.example/unreachable'',
                              summary_log ''https://logs.example/interrupted''])])
        [summary_log ''https://logs.example/interrupted'']) \<and>
   wf_raw_build (fetch_json example_env) (example_build [test_step ''https://logs.example/unreachable'']) \<and>
   failure_type_of (example_build [test_step ''https://logs.example/unreachable'']) =
     Some (JStr ''TEST_FAILURE'') \<and>
   steps_of (example_build [test_step ''https://logs.example/unreachable'']) =
     [test_step ''https://logs.example/unreachable''] \<and>
   summary_urls (test_step ''https://logs.example/unreachable'') =
     [JStr ''https://logs.example/unreachable''] \<and>
   status_if_interrupted example_env (example_build [test_step ''https://logs.example/unreachable'']) =
     Inr (''COMPLETED'', Some ''FAILURE'') \<and>
   step_name_matches (test_step ''https://logs.example/empty'') \<and>
   fetch_swarming_summary (fetch_json example_env) (test_step ''https://logs.example/empty'') =
     Inr (JList []) \<and>
   step_interrupted example_env (test_step ''https://logs.example/empty'') = Inr False \<and>
   step_name_matches (test_step ''https://logs.example/array'') \<and>
   fetch_swarming_summary (fetch_json example_env) (test_step ''https://logs.example/array'') =
     Inr (JList [JObj [(''exit_code'', JStr ''0'')]]) \<and>
   step_interrupted example_env (test_step ''https://logs.example/array'') = Inl AttributeError \<and>
   status_if_interrupted example_env (example_build [test_step ''https://logs.example/array'']) =
     Inl AttributeError"
proof -
  let ?un = "example_build [test_step ''https://logs.example/unreachable'']"
  let ?kvs = "[(''name'', JStr ''blink_web_tests (with patch)''),
            (''logs'', JList [summary_log ''https://logs.example/unreachable'',
                              summary_log ''https://logs.example/interrupted''])]"
  let ?empty = "test_step ''https://logs.example/empty''"
  let ?array = "test_step ''https://logs.example/array''"
  let ?ar = "example_build [?array]"
  have a: "\<forall>x. from_bb_status example_env x \<noteq> Inl RequestException"
    by (simp add: example_env_def example_from_bb_status_not_request)
  have f: "fetch_json example_env (JStr ''https://logs.example/unreachable'') = Inl RequestException"
    by code_simp
  have l: "map_of ?kvs ''logs'' = Some (JList ([] @ summary_log ''https://logs.example/unreachable'' #
      [summary_log ''https://logs.example/interrupted'']))" by code_simp
  have n: "py_getitem (summary_log ''https://logs.example/unreachable'') ''name'' =
      Inr (JStr ''chromium_swarming.summary'')" by code_simp
  have u: "py_getitem (summary_log ''https://logs.example/unreachable'') ''viewUrl'' =
      Inr (JStr ''https://logs.example/unreachable'')" by code_simp
  have w: "wf_raw_build (fetch_json example_env) ?un" by code_simp
  have t: "failure_type_of ?un = Some (JStr ''TEST_FAILURE'')" by code_simp
  have h: "hashable (JStr ''TEST_FAILURE'')" by code_simp
  have s: "steps_of ?un = [test_step ''https://logs.example/unreachable'']" by code_simp
  have su: "summary_urls (test_step ''https://logs.example/unreachable'') =
      [JStr ''https://logs.example/unreachable'']" by code_simp
  have r: "from_bb_status example_env (reported_status ?un) = Inr (''COMPLETED'', Some ''FAILURE'')"
    by code_simp
  have me: "step_name_matches ?empty" by code_simp
  have fe: "fetch_swarming_summary (fetch_json example_env) ?empty = Inr (JList [])" by code_simp
  have te: "\<not> py_truthy (JList [])" by simp
  have ma: "step_name_matches ?array" by code_simp
  have fa: "fetch_swarming_summary (fetch_json example_env) ?array =
      Inr (JList [JObj [(''exit_code'', JStr ''0'')]])" by code_simp
  have ta: "py_truthy (JList [JObj [(''exit_code'', JStr ''0'')]])" by simp
  have na: "\<forall>c. JList [JObj [(''exit_code'', JStr ''0'')]] \<noteq> JObj c" by simp
  have fta: "failure_type_of ?ar = Some (JStr ''TEST_FAILURE'')" by code_simp
  have sta: "py_get ?ar ''steps'' (JList []) = Inr (JList ([] @ ?array # []))" by code_simp
  have all_fail: "\<forall>st\<in>set (steps_of ?un). step_name_matches st \<longrightarrow>
       (\<forall>u\<in>set (summary_urls st). fetch_json example_env u = Inl RequestException)"
    by (simp only: s su list.set ball_simps f simp_thms)
  note i1 = request_exception_is_suppressed
      [of example_env ?un ?kvs "[]" "summary_log ''https://logs.example/unreachable''"
          "[summary_log ''https://logs.example/interrupted'']" "JStr ''https://logs.example/unreachable''"
          "JStr ''TEST_FAILURE''" ?empty "JList []"]
  note i2 = request_exception_is_suppressed
      [of example_env ?ar _ _ _ _ _ _ ?array "JList [JObj [(''exit_code'', JStr ''0'')]]" "[]" "[]"
          AttributeError]
  from i1 a have c1: "status_if_interrupted example_env ?un \<noteq> Inl RequestException" by blast
  from i1 have "map_of ?kvs ''logs'' = Some (JList ([] @ summary_log ''https://logs.example/unreachable'' #
      [summary_log ''https://logs.example/interrupted''])) \<and>
    py_getitem (summary_log ''https://logs.example/unreachable'') ''name'' = Inr (JStr ''chromium_swarming.summary'') \<and>
    py_getitem (summary_log ''https://logs.example/unreachable'') ''viewUrl'' = Inr (JStr ''https://logs.example/unreachable'') \<and>
    fetch_json example_env (JStr ''https://logs.example/unreachable'') = Inl RequestException \<longrightarrow>
      step_interrupted example_env (JObj ?kvs) =
      step_interrupted example_env (with_logs (JObj ?kvs) ([] @ [summary_log ''https://logs.example/interrupted'']))"
    by (rule conjunct1 [OF conjunct2])
  with l n u f have c2: "step_interrupted example_env (JObj ?kvs) =
      step_interrupted example_env (with_logs (JObj ?kvs) [summary_log ''https://logs.example/interrupted''])"
    by simp
  from i1 have "wf_raw_build (fetch_json example_env) ?un \<and> failure_type_of ?un = Some (JStr ''TEST_FAILURE'') \<and>
      hashable (JStr ''TEST_FAILURE'') \<and>
      (\<forall>st\<in>set (steps_of ?un). step_name_matches st \<longrightarrow>
         (\<forall>u\<in>set (summary_urls st). fetch_json example_env u = Inl RequestException)) \<longrightarrow>
      status_if_interrupted example_env ?un =
        from_bb_status example_env
          (if JStr ''TEST_FAILURE'' \<noteq> JNull \<and> JStr ''TEST_FAILURE'' \<noteq> JStr ''TEST_FAILURE''
           then JStr ''INFRA_FAILURE'' else reported_status ?un)"
    by (rule conjunct1 [OF conjunct2 [OF conjunct2]])
  with w t h all_fail r have c3: "status_if_interrupted example_env ?un = Inr (''COMPLETED'', Some ''FAILURE'')"
    by simp
  from i1 have "step_name_matches ?empty \<and> fetch_swarming_summary (fetch_json example_env) ?empty = Inr (JList []) \<and>
      \<not> py_truthy (JList []) \<longrightarrow> step_interrupted example_env ?empty = Inr False"
    by (rule conjunct1 [OF conjunct2 [OF conjunct2 [OF conjunct2]]])
  with me fe te have c4: "step_interrupted example_env ?empty = Inr False" by blast
  from i2 have "step_name_matches ?array \<and>
      fetch_swarming_summary (fetch_json example_env) ?array = Inr (JList [JObj [(''exit_code'', JStr ''0'')]]) \<and>
      py_truthy (JList [JObj [(''exit_code'', JStr ''0'')]]) \<and>
      (\<forall>c. JList [JObj [(''exit_code'', JStr ''0'')]] \<noteq> JObj c) \<longrightarrow>
      step_interrupted example_env ?array = Inl AttributeError"
    by (rule conjunct1 [OF conjunct2 [OF conjunct2 [OF conjunct2 [OF conjunct2]]]])
  with ma fa ta na have c5: "step_interrupted example_env ?array = Inl AttributeError" by blast
  from i2 have "(failure_type_of ?ar = Some JNull \<or> failure_type_of ?ar = Some (JStr ''TEST_FAILURE'')) \<and>
      py_get ?ar ''steps'' (JList []) = Inr (JList ([] @ ?array # [])) \<and>
      (\<forall>s\<in>set []. step_interrupted example_env s = Inr False) \<and>
      step_interrupted example_env ?array = Inl AttributeError \<longrightarrow>
      status_if_interrupted example_env ?ar = Inl AttributeError"
    by (rule conjunct2 [OF conjunct2 [OF conjunct2 [OF conjunct2 [OF conjunct2]]]])
  with fta sta c5 have c6: "status_if_interrupted example_env ?ar = Inl AttributeError" by simp
  from a c1 f c2 w t s su c3 me fe c4 ma fa c5 c6 show ?thesis by (intro conjI)
qed

lemma sorted_builds_sorted: "sorted (map build_sort_key (sorted_builds builds))"
  by (simp add: sorted_builds_def)

lemma unnumbered_key_less:
  assumes "builder_name b1 = builder_name b2" and "\<not> number_truthy (build_number b1)"
      and "build_number b2 = Some n" and "0 < n"
  shows "build_sort_key b1 < build_sort_key b2"
  using assms by (simp add: build_sort_key_def number_truthy_def less_prod_def)

lemma sorted_positions:
  assumes "sorted (map f xs)" and "i < length xs" and "j < length xs" and "f (xs ! j) < f (xs ! i)"
  shows "j < i"
proof (rule ccontr)
  assume "\<not> j < i"
  then have "i \<le> j" by simp
  with assms(1,3) have "map f xs ! i \<le> map f xs ! j"
    by (simp add: sorted_iff_nth_mono)
  with assms(2,3,4) show False by simp
qed

text \<open>
  Claim C3 as stated fails: of two builds of one builder, the one without a number is
  logged first, not last. These are the lines \<open>_log_build_statuses\<close> logs for build 5 of
  \<open>linux-rel\<close> and a \<open>linux-rel\<close> build without a number.
\<close>

theorem unnumbered_build_is_logged_first:
  "log_build_statuses
     [(linux_rel (Some 5) (JStr ''8765''), ''FAILURE''), (linux_rel None JNull, ''TRIGGERED'')] =
   Inr [Info ''  BUILDER              NUMBER  STATUS    BUCKET'',
        Info ''  linux-rel            --      TRIGGERED try   '',
        Info ''  linux-rel            5       FAILURE   try   '']"
  by code_simp

lemma build_sort_key_order:
  assumes "build_sort_key a \<le> build_sort_key b"
  shows "builder_name a < builder_name b \<or>
         (builder_name a = builder_name b \<and>
          (case build_number a of None \<Rightarrow> 0 | Some n \<Rightarrow> n) \<le>
          (case build_number b of None \<Rightarrow> 0 | Some n \<Rightarrow> n))"
proof -
  have k: "\<And>x. build_sort_key x =
      (builder_name x, case build_number x of None \<Rightarrow> 0 | Some n \<Rightarrow> n)"
    by (simp add: build_sort_key_def number_truthy_def split: option.splits)
  from assms show ?thesis
    unfolding k less_eq_prod_def by auto
qed

text \<open>
  Claim C3, as amended. The table has one row for each build of the dict, in the order of
  \<open>sorted(build_statuses, key=_build_sort_key)\<close>: of two rows, the upper one has the
  smaller builder name (strings compared by code point) or, with the same builder name,
  the build number that is not greater, a missing number counting as 0. So among the builds
  of one builder, a build without a number stands before every build with a positive
  number: first, not last.
\<close>

theorem table_rows_sorted_by_name_then_number:
  assumes "build_statuses \<noteq> []"
  shows "\<exists>w. log_build_statuses build_statuses =
           Inr (Info (table_line w ''BUILDER'' ''NUMBER'' ''STATUS'' ''BUCKET'') #
                map (\<lambda>build. Info (table_line w (builder_name build)
                                     (number_column (build_number build))
                                     (the (map_of build_statuses build)) (bucket build)))
                    (sorted_builds (map fst build_statuses))) \<and>
         (\<forall>i j. i < j \<and> j < length build_statuses \<longrightarrow>
            builder_name (sorted_builds (map fst build_statuses) ! i) <
              builder_name (sorted_builds (map fst build_statuses) ! j) \<or>
            (builder_name (sorted_builds (map fst build_statuses) ! i) =
               builder_name (sorted_builds (map fst build_statuses) ! j) \<and>
             (case build_number (sorted_builds (map fst build_statuses) ! i) of
                None \<Rightarrow> 0 | Some n \<Rightarrow> n) \<le>
             (case build_number (sorted_builds (map fst build_statuses) ! j) of
                None \<Rightarrow> 0 | Some n \<Rightarrow> n))) \<and>
         sorted (map build_sort_key (sorted_builds (map fst build_statuses))) \<and>
         set (sorted_builds (map fst build_statuses)) = fst ` set build_statuses \<and>
         length (sorted_builds (map fst build_statuses)) = length build_statuses \<and>
         (\<forall>i j n. i < length build_statuses \<and> j < length build_statuses \<and>
            builder_name (sorted_builds (map fst build_statuses) ! j) =
              builder_name (sorted_builds (map fst build_statuses) ! i) \<and>
            \<not> number_truthy (build_number (sorted_builds (map fst build_statuses) ! j)) \<and>
            build_number (sorted_builds (map fst build_statuses) ! i) = Some n \<and> 0 < n
            \<longrightarrow> j < i)"
proof -
  let ?rows = "sorted_builds (map fst build_statuses)"
  let ?w = "foldl max 20 (map length (map (\<lambda>kv. builder_name (fst kv)) build_statuses))"
  have len: "length ?rows = length build_statuses"
    by (simp add: sorted_builds_def)
  have keys: "set ?rows = fst ` set build_statuses"
    by (simp add: sorted_builds_def)
  have asc: "\<forall>i j. i < j \<and> j < length build_statuses \<longrightarrow>
            builder_name (?rows ! i) < builder_name (?rows ! j) \<or>
            (builder_name (?rows ! i) = builder_name (?rows ! j) \<and>
             (case build_number (?rows ! i) of None \<Rightarrow> 0 | Some n \<Rightarrow> n) \<le>
             (case build_number (?rows ! j) of None \<Rightarrow> 0 | Some n \<Rightarrow> n))"
  proof (intro allI impI)
    fix i j
    assume a: "i < j \<and> j < length build_statuses"
    then have j: "j < length (map build_sort_key ?rows)" and ij: "i \<le> j"
      by (simp_all add: len)
    from sorted_builds_sorted [of "map fst build_statuses"] ij j
    have "map build_sort_key ?rows ! i \<le> map build_sort_key ?rows ! j"
      by (simp only: sorted_iff_nth_mono)
    with a len have "build_sort_key (?rows ! i) \<le> build_sort_key (?rows ! j)"
      by simp
    then show "builder_name (?rows ! i) < builder_name (?rows ! j) \<or>
            (builder_name (?rows ! i) = builder_name (?rows ! j) \<and>
             (case build_number (?rows ! i) of None \<Rightarrow> 0 | Some n \<Rightarrow> n) \<le>
             (case build_number (?rows ! j) of None \<Rightarrow> 0 | Some n \<Rightarrow> n))"
      by (rule build_sort_key_order)
  qed
  have order: "\<forall>i j n. i < length build_statuses \<and> j < length build_statuses \<and>
            builder_name (?rows ! j) = builder_name (?rows ! i) \<and>
            \<not> number_truthy (build_number (?rows ! j)) \<and>
            build_number (?rows ! i) = Some n \<and> 0 < n \<longrightarrow> j < i"
  proof (intro allI impI)
    fix i j n
    assume a: "i < length build_statuses \<and> j < length build_statuses \<and>
            builder_name (?rows ! j) = builder_name (?rows ! i) \<and>
            \<not> number_truthy (build_number (?rows ! j)) \<and>
            build_number (?rows ! i) = Some n \<and> 0 < n"
    from a have i: "i < length ?rows" and j: "j < length ?rows"
      by (simp_all only: len)
    from a have "builder_name (?rows ! j) = builder_name (?rows ! i)"
      and "\<not> number_truthy (build_number (?rows ! j))"
      and "build_number (?rows ! i) = Some n" and "0 < n"
      by blast+
    then have "build_sort_key (?rows ! j) < build_sort_key (?rows ! i)"
      by (rule unnumbered_key_less)
    with sorted_builds_sorted i j show "j < i"
      by (rule sorted_positions)
  qed
  have lines: "log_build_statuses build_statuses =
           Inr (Info (table_line ?w ''BUILDER'' ''NUMBER'' ''STATUS'' ''BUCKET'') #
                map (\<lambda>build. Info (table_line ?w (builder_name build)
                                     (number_column (build_number build))
                                     (the (map_of build_statuses build)) (bucket build)))
                    ?rows)"
    using assms by (simp only: log_build_statuses_def Let_def if_False)
  from lines asc sorted_builds_sorted keys len order show ?thesis
    by (intro exI [of _ ?w] conjI)
qed

theorem table_rows_sorted_by_name_then_number_witness:
  "[(linux_rel (Some 5) (JStr ''8765''), ''FAILURE''), (linux_rel None JNull, ''TRIGGERED'')] \<noteq> [] \<and>
   sorted_builds [linux_rel (Some 5) (JStr ''8765''), linux_rel None JNull] =
     [linux_rel None JNull, linux_rel (Some 5) (JStr ''8765'')] \<and>
   sorted (map build_sort_key (sorted_builds [linux_rel (Some 5) (JStr ''8765''), linux_rel None JNull]))"
proof -
  have a: "[(linux_rel (Some 5) (JStr ''8765''), ''FAILURE''), (linux_rel None JNull, ''TRIGGERED'')] \<noteq> []"
    by simp
  have b: "sorted_builds [linux_rel (Some 5) (JStr ''8765''), linux_rel None JNull] =
     [linux_rel None JNull, linux_rel (Some 5) (JStr ''8765'')]"
    by code_simp
  from table_rows_sorted_by_name_then_number [OF a] a b show ?thesis
    by simp
qed

lemma dict_set_absent: "k \<notin> fst ` set d \<Longrightarrow> dict_set d k v = d @ [(k, v)]"
  by (simp add: dict_set_def)

lemma map_of_replace:
  "map_of (map (\<lambda>kv. if fst kv = k then (k, v) else kv) d) =
   (\<lambda>x. if x = k \<and> k \<in> fst ` set d then Some v else map_of d x)"
  by (induction d) (auto simp: fun_eq_iff)

lemma map_of_dict_set: "map_of (dict_set d k v) = (map_of d)(k \<mapsto> v)"
proof (cases "k \<in> fst ` set d")
  case True
  then show ?thesis
    by (auto simp: dict_set_def map_of_replace fun_eq_iff)
next
  case False
  then have "map_of d k = None" by (simp add: map_of_eq_None_iff)
  with False show ?thesis
    by (auto simp: dict_set_def fun_eq_iff map_add_def split: option.splits)
qed

lemma map_fst_replace:
  "map fst (map (\<lambda>kv. if fst kv = k then (k, v) else kv) d) = map fst d"
  by (induction d) auto

lemma keys_dict_set: "fst ` set (dict_set d k v) = insert k (fst ` set d)"
proof (cases "k \<in> fst ` set d")
  case True
  have "fst ` set (map (\<lambda>kv. if fst kv = k then (k, v) else kv) d) =
        set (map fst (map (\<lambda>kv. if fst kv = k then (k, v) else kv) d))"
    by (simp only: set_map)
  also have "\<dots> = fst ` set d"
    by (simp only: map_fst_replace set_map)
  finally show ?thesis
    using True by (simp add: dict_set_def insert_absorb)
next
  case False
  then show ?thesis by (simp add: dict_set_def)
qed

lemma distinct_dict_set: "distinct (map fst d) \<Longrightarrow> distinct (map fst (dict_set d k v))"
proof (cases "k \<in> fst ` set d")
  case True
  assume "distinct (map fst d)"
  then have "distinct (map fst (map (\<lambda>kv. if fst kv = k then (k, v) else kv) d))"
    by (simp only: map_fst_replace)
  with True show ?thesis by (simp only: dict_set_def if_True)
next
  case False
  assume "distinct (map fst d)"
  with False show ?thesis by (simp add: dict_set_def)
qed

lemma distinct_dict_update: "distinct (map fst d) \<Longrightarrow> distinct (map fst (dict_update d other))"
  unfolding dict_update_def
proof (induction other arbitrary: d)
  case Nil
  then show ?case by simp
next
  case (Cons kv other)
  from Cons.prems have "distinct (map fst (dict_set d (fst kv) (snd kv)))"
    by (rule distinct_dict_set)
  from Cons.IH [OF this] show ?case by simp
qed

lemma map_of_dict_update:
  "map_of (dict_update d other) = map_of d ++ map_of (rev other)"
  unfolding dict_update_def
proof (induction other arbitrary: d)
  case Nil
  then show ?case by simp
next
  case (Cons kv other)
  have "map_of (foldl (\<lambda>acc kv. dict_set acc (fst kv) (snd kv)) d (kv # other)) =
        (map_of d)(fst kv \<mapsto> snd kv) ++ map_of (rev other)"
    by (simp only: foldl.simps Cons.IH map_of_dict_set)
  also have "\<dots> = map_of d ++ map_of (rev (kv # other))"
    by (cases kv) (auto simp: fun_eq_iff map_add_def split: option.splits)
  finally show ?case .
qed

lemma keys_dict_update: "fst ` set (dict_update d other) = fst ` set d \<union> fst ` set other"
  unfolding dict_update_def
proof (induction other arbitrary: d)
  case Nil
  then show ?case by simp
next
  case (Cons kv other)
  have "fst ` set (foldl (\<lambda>acc kv. dict_set acc (fst kv) (snd kv)) d (kv # other)) =
        fst ` set (dict_set d (fst kv) (snd kv)) \<union> fst ` set other"
    by (simp add: Cons.IH)
  then show ?case by (simp add: keys_dict_set)
qed

lemma request_build_try:
  "try_without_number b \<Longrightarrow> request_build acc b = (set_add (fst acc) (builder_name b), snd acc)"
  by (simp add: request_build_def try_without_number_def)

lemma foldl_request_build_try:
  "\<forall>b\<in>set builds. try_without_number b \<Longrightarrow>
   foldl request_build acc builds = (foldl set_add (fst acc) (map builder_name builds), snd acc)"
  by (induction builds arbitrary: acc) (simp_all add: request_build_try)

lemma set_foldl_set_add: "set (foldl set_add xs ys) = set xs \<union> set ys"
  by (induction ys arbitrary: xs) (auto simp: set_add_def)

lemma distinct_foldl_set_add: "distinct xs \<Longrightarrow> distinct (foldl set_add xs ys)"
  by (induction ys arbitrary: xs) (auto simp: set_add_def)

lemma try_builders_all_try:
  assumes "\<forall>b\<in>set builds. try_without_number b"
  shows "foldl request_build ([], q) builds = (try_builders_to_infer builds, q)"
    and "set (try_builders_to_infer builds) = builder_name ` set builds"
  using foldl_request_build_try [OF assms, of "([], q)"] foldl_request_build_try [OF assms, of "([], [])"]
  by (simp_all add: try_builders_to_infer_def set_foldl_set_add)

lemma messages_differ:
  "no_issue_message \<noteq> aborted_message" "pending_message \<noteq> aborted_message"
  "pending_message \<noteq> no_issue_message"
  by (simp_all add: no_issue_message_def aborted_message_def pending_message_def)

lemma fetch_no_issue:
  "\<not> py_isdigit (issue_number env) \<Longrightarrow>
   fetch_or_trigger_try_jobs env builders patchset s =
     (Inl (UnresolvedBuildException no_issue_message), s)"
  by (simp add: fetch_or_trigger_try_jobs_def)

lemma fetch_aborted:
  assumes "py_isdigit (issue_number env)" and "int_of_str (issue_number env) = Inr issue"
      and "latest_try_jobs env (issue_number env) builders patchset = []"
      and "\<not> can_trigger_jobs env"
  shows "fetch_or_trigger_try_jobs env builders patchset s =
     (Inl (UnresolvedBuildException aborted_message),
      s\<lparr>log_lines := log_lines s @ [FetchingStatus (length builders) issue patchset]\<rparr>)"
  using assms by (simp add: fetch_or_trigger_try_jobs_def)

lemma fetch_returns:
  assumes "py_isdigit (issue_number env)" and "int_of_str (issue_number env) = Inr issue"
      and "latest_try_jobs env (issue_number env) builders patchset \<noteq> [] \<or> can_trigger_jobs env"
  shows "\<exists>statuses. fst (fetch_or_trigger_try_jobs env builders patchset s) = Inr statuses"
  using assms by (auto simp: fetch_or_trigger_try_jobs_def Let_def)

lemma issue_number_convertsD:
  assumes "issue_number_converts env" and "py_isdigit (issue_number env)"
  shows "\<exists>issue. int_of_str (issue_number env) = Inr issue"
  using assms by (cases "int_of_str (issue_number env)") (simp_all add: issue_number_converts_def)

text \<open>
  Claim C5. When triggering is disabled, a non-empty request of try builders without build
  numbers for which \<open>latest_try_jobs\<close> finds no build makes \<open>resolve_builds\<close> raise
  \<open>UnresolvedBuildException\<close>, and nothing is triggered. With an issue number,
  \<open>fetch_or_trigger_try_jobs\<close> raises its "Aborted" exception exactly when no build status
  was found and triggering is disallowed.
\<close>

theorem no_try_jobs_and_no_trigger_raises:
  "(builds \<noteq> [] \<and> (\<forall>b\<in>set builds. try_without_number b) \<and> \<not> can_trigger_jobs env \<and>
    latest_try_jobs env (issue_number env) (try_builders_to_infer builds) patchset = [] \<and>
    issue_number_converts env \<longrightarrow>
      fst (resolve_builds env builds patchset s) =
        Inl (UnresolvedBuildException
               (if py_isdigit (issue_number env) then aborted_message else no_issue_message)) \<and>
      trigger_calls (snd (resolve_builds env builds patchset s)) = trigger_calls s) \<and>
   (py_isdigit (issue_number env) \<and> issue_number_converts env \<longrightarrow>
      (fst (fetch_or_trigger_try_jobs env builders patchset s) =
         Inl (UnresolvedBuildException aborted_message)) =
      (latest_try_jobs env (issue_number env) builders patchset = [] \<and> \<not> can_trigger_jobs env))"
proof (intro conjI impI)
  assume a: "builds \<noteq> [] \<and> (\<forall>b\<in>set builds. try_without_number b) \<and> \<not> can_trigger_jobs env \<and>
    latest_try_jobs env (issue_number env) (try_builders_to_infer builds) patchset = [] \<and>
    issue_number_converts env"
  then have all_try: "\<forall>b\<in>set builds. try_without_number b" by simp
  from a try_builders_all_try(2) [OF all_try] have ne: "try_builders_to_infer builds \<noteq> []"
    by (cases builds) auto
  let ?s0 = "s\<lparr>batch_requests := batch_requests s\<rparr>"
  have r: "resolve_builds env builds patchset s =
      (case fetch_or_trigger_try_jobs env (try_builders_to_infer builds) patchset ?s0 of
         (Inl e, s1) \<Rightarrow> (Inl e, s1)
       | (Inr try_build_statuses, s1) \<Rightarrow>
           resolve_batch env (dict_update [] try_build_statuses)
             (s1\<lparr>batch_requests := batch_requests s1 @ rerequest_completed try_build_statuses\<rparr>))"
    using ne by (simp add: resolve_builds_def try_builders_all_try(1) [OF all_try] Let_def)
  show "fst (resolve_builds env builds patchset s) =
        Inl (UnresolvedBuildException
               (if py_isdigit (issue_number env) then aborted_message else no_issue_message))"
  proof (cases "py_isdigit (issue_number env)")
    case True
    with a issue_number_convertsD obtain issue where "int_of_str (issue_number env) = Inr issue"
      by blast
    from fetch_aborted [OF True this, of "try_builders_to_infer builds" patchset ?s0] a True
    show ?thesis by (simp add: r)
  next
    case False
    from fetch_no_issue [OF False, of "try_builders_to_infer builds" patchset ?s0] False
    show ?thesis by (simp add: r)
  qed
  show "trigger_calls (snd (resolve_builds env builds patchset s)) = trigger_calls s"
  proof (cases "py_isdigit (issue_number env)")
    case True
    with a issue_number_convertsD obtain issue where "int_of_str (issue_number env) = Inr issue"
      by blast
    from fetch_aborted [OF True this, of "try_builders_to_infer builds" patchset ?s0] a True
    show ?thesis by (simp add: r)
  next
    case False
    from fetch_no_issue [OF False, of "try_builders_to_infer builds" patchset ?s0] False
    show ?thesis by (simp add: r)
  qed
next
  assume b: "py_isdigit (issue_number env) \<and> issue_number_converts env"
  with issue_number_convertsD obtain issue where i: "int_of_str (issue_number env) = Inr issue"
    by blast
  show "(fst (fetch_or_trigger_try_jobs env builders patchset s) =
         Inl (UnresolvedBuildException aborted_message)) =
      (latest_try_jobs env (issue_number env) builders patchset = [] \<and> \<not> can_trigger_jobs env)"
  proof (cases "latest_try_jobs env (issue_number env) builders patchset = [] \<and> \<not> can_trigger_jobs env")
    case True
    with fetch_aborted [OF _ i, of builders patchset s] b show ?thesis by simp
  next
    case False
    then have "latest_try_jobs env (issue_number env) builders patchset \<noteq> [] \<or> can_trigger_jobs env"
      by blast
    from fetch_returns [OF _ i this, of s] b False show ?thesis by auto
  qed
qed

lemma example_issue_number:
  "int_of_str (issue_number (example_resolver_env trigger)) = Inr 4012345"
  "py_isdigit (issue_number (example_resolver_env trigger))"
  "issue_number_converts (example_resolver_env trigger)"
  by (simp_all add: issue_number_converts_def example_resolver_env_def int_of_str_def strip_def
      py_isdigit_def is_space_def is_digit_def digit_val_def)

theorem no_try_jobs_and_no_trigger_raises_witness:
  "[mac_rel None JNull] \<noteq> [] \<and> try_without_number (mac_rel None JNull) \<and>
   \<not> can_trigger_jobs (example_resolver_env False) \<and>
   latest_try_jobs (example_resolver_env False) (issue_number (example_resolver_env False))
     (try_builders_to_infer [mac_rel None JNull]) (Some 3) = [] \<and>
   py_isdigit (issue_number (example_resolver_env False)) \<and>
   issue_number_converts (example_resolver_env False) \<and>
   fst (resolve_builds (example_resolver_env False) [mac_rel None JNull] (Some 3) empty_state) =
     Inl (UnresolvedBuildException aborted_message) \<and>
   trigger_calls (snd (resolve_builds (example_resolver_env False) [mac_rel None JNull] (Some 3) empty_state)) = []"
proof -
  let ?env = "example_resolver_env False"
  have a: "try_without_number (mac_rel None JNull)" by code_simp
  have b: "\<not> can_trigger_jobs ?env" by code_simp
  have c: "latest_try_jobs ?env (issue_number ?env) (try_builders_to_infer [mac_rel None JNull]) (Some 3) = []"
    by code_simp
  have f: "trigger_calls empty_state = []" by code_simp
  from no_try_jobs_and_no_trigger_raises [of "[mac_rel None JNull]" ?env "Some 3" empty_state]
    a b c example_issue_number(2,3) [of False] f
  show ?thesis by simp
qed

lemma foldl_dict_set_fresh:
  "distinct bs \<Longrightarrow> inj_on f (set bs) \<Longrightarrow> \<forall>b\<in>set bs. f b \<notin> fst ` set d \<Longrightarrow>
   foldl (\<lambda>d b. dict_set d (f b) st) d bs = d @ map (\<lambda>b. (f b, st)) bs"
proof (induction bs arbitrary: d)
  case Nil
  then show ?case by simp
next
  case (Cons b bs)
  from Cons.prems have fresh: "f b \<notin> fst ` set d" by simp
  have "\<forall>b'\<in>set bs. f b' \<notin> fst ` set (d @ [(f b, st)])"
  proof
    fix b' assume b': "b' \<in> set bs"
    with Cons.prems have "f b' \<noteq> f b" by (auto simp: inj_on_def)
    moreover from b' Cons.prems have "f b' \<notin> fst ` set d" by simp
    ultimately show "f b' \<notin> fst ` set (d @ [(f b, st)])" by simp
  qed
  moreover from Cons.prems have "distinct bs" "inj_on f (set bs)" by (simp_all add: inj_on_def)
  ultimately have "foldl (\<lambda>d b. dict_set d (f b) st) (d @ [(f b, st)]) bs =
      (d @ [(f b, st)]) @ map (\<lambda>b. (f b, st)) bs"
    by (intro Cons.IH)
  with fresh show ?case by (simp add: dict_set_absent)
qed

lemma placeholder_name [simp]: "builder_name (placeholder_build env b) = b"
  by (simp add: placeholder_build_def)

lemma placeholder_number [simp]: "build_number (placeholder_build env b) = None"
  by (simp add: placeholder_build_def)

lemma placeholder_inj: "inj_on (placeholder_build env) A"
  by (rule inj_onI) (simp add: placeholder_build_def)

lemma distinct_try_builders: "distinct (try_builders_to_infer builds)"
proof -
  have "\<And>acc. distinct (fst acc) \<Longrightarrow> distinct (fst (foldl request_build acc builds))"
  proof (induction builds)
    case Nil
    then show ?case by simp
  next
    case (Cons b builds)
    from Cons.prems have "distinct (fst (request_build acc b))"
      by (simp add: request_build_def set_add_def)
    from Cons.IH [OF this] show ?case by simp
  qed
  from this [of "([], [])"] show ?thesis by (simp add: try_builders_to_infer_def)
qed

lemma without_fresh:
  "\<forall>b\<in>set (builders_without_results builders found).
     placeholder_build env b \<notin> fst ` set found"
proof
  fix b assume "b \<in> set (builders_without_results builders found)"
  then have "b \<notin> (\<lambda>kv. builder_name (fst kv)) ` set found"
    by (simp add: builders_without_results_def)
  then show "placeholder_build env b \<notin> fst ` set found"
    by (metis (no_types, lifting) image_iff placeholder_name)
qed

lemma fetch_triggers:
  assumes "py_isdigit (issue_number env)" and "int_of_str (issue_number env) = Inr issue"
      and "can_trigger_jobs env"
      and "builders_without_results builders (latest_try_jobs env (issue_number env) builders patchset) \<noteq> []"
  shows "fetch_or_trigger_try_jobs env builders patchset s =
     (Inr (latest_try_jobs env (issue_number env) builders patchset @
           map (\<lambda>b. (placeholder_build env b, TRIGGERED))
             (builders_without_results builders (latest_try_jobs env (issue_number env) builders patchset))),
      s\<lparr>log_lines := log_lines s @ [FetchingStatus (length builders) issue patchset],
         trigger_calls := trigger_calls s @
           [builders_without_results builders (latest_try_jobs env (issue_number env) builders patchset)]\<rparr>)"
proof -
  let ?found = "latest_try_jobs env (issue_number env) builders patchset"
  let ?without = "builders_without_results builders ?found"
  have d: "distinct ?without" by (simp add: builders_without_results_def)
  have "foldl (\<lambda>d b. dict_set d (placeholder_build env b) TRIGGERED) ?found ?without =
        ?found @ map (\<lambda>b. (placeholder_build env b, TRIGGERED)) ?without"
    by (rule foldl_dict_set_fresh [OF d placeholder_inj without_fresh])
  with assms show ?thesis
    by (simp add: fetch_or_trigger_try_jobs_def Let_def)
qed

lemma log_build_statuses_total:
  "d \<noteq> [] \<Longrightarrow> \<exists>rows. log_build_statuses d = Inr rows"
  by (simp add: log_build_statuses_def Let_def)

lemma log_builds_total: "\<exists>logged. log_builds env d = Inr logged"
proof (cases "length (finished_builds d) = length d")
  case True
  then show ?thesis by (simp add: log_builds_def Let_def)
next
  case False
  obtain first where first: "(if finished_builds d \<noteq> [] then
               bnd (log_build_statuses (finished_builds d)) (\<lambda>rows. Inr (Info ''Finished builds:'' # rows))
             else Inr [Info ''No finished builds.'']) = Inr first"
    using log_build_statuses_total [of "finished_builds d"] by (cases "finished_builds d = []") auto
  show ?thesis
  proof (cases "unfinished_builds d = []")
    case True
    with False first show ?thesis by (simp add: log_builds_def Let_def)
  next
    case ne: False
    with log_build_statuses_total obtain rows where "log_build_statuses (unfinished_builds d) = Inr rows"
      by blast
    with False first ne show ?thesis by (simp add: log_builds_def Let_def)
  qed
qed

lemma map_of_constant:
  "b \<in> set bs \<Longrightarrow> map_of (map (\<lambda>b. (f b, c)) bs) (f b) = Some c"
  by (induction bs) auto

lemma rerequest_completed_append:
  "rerequest_completed (xs @ ys) = rerequest_completed xs @ rerequest_completed ys"
  by (simp add: rerequest_completed_def)

lemma rerequest_completed_placeholders:
  "rerequest_completed (map (\<lambda>b. (placeholder_build env b, st)) bs) = []"
  by (induction bs) (simp_all add: rerequest_completed_def number_truthy_def)

lemma resolve_builds_try:
  assumes all_try: "\<forall>b\<in>set builds. try_without_number b" and ne: "builds \<noteq> []"
  shows "resolve_builds env builds patchset s =
      (case fetch_or_trigger_try_jobs env (try_builders_to_infer builds) patchset s of
         (Inl e, s1) \<Rightarrow> (Inl e, s1)
       | (Inr try_build_statuses, s1) \<Rightarrow>
           resolve_batch env (dict_update [] try_build_statuses)
             (s1\<lparr>batch_requests := batch_requests s1 @ rerequest_completed try_build_statuses\<rparr>))"
proof -
  from ne try_builders_all_try(2) [OF all_try] have "try_builders_to_infer builds \<noteq> []"
    by (cases builds) auto
  then show ?thesis
    by (simp add: resolve_builds_def try_builders_all_try(1) [OF all_try] Let_def)
qed

lemma resolve_batch_pending:
  assumes "build_statuses_from_responses (classifier env) (execute_batch env (batch_requests s)) = Inr batch"
      and "map_of (dict_update build_statuses batch) k = Some TRIGGERED"
  shows "fst (resolve_batch env build_statuses s) = Inl (UnresolvedBuildException pending_message)"
    and "trigger_calls (snd (resolve_batch env build_statuses s)) = trigger_calls s"
proof -
  let ?all = "dict_update build_statuses batch"
  from assms(2) have mem: "(k, TRIGGERED) \<in> set ?all" by (rule map_of_SomeD)
  then have ne: "?all \<noteq> []" by auto
  from mem have tr: "TRIGGERED \<in> snd ` set ?all" by force
  from log_builds_total obtain logged where "log_builds env ?all = Inr logged" by blast
  with assms(1) ne tr show "fst (resolve_batch env build_statuses s) = Inl (UnresolvedBuildException pending_message)"
    and "trigger_calls (snd (resolve_batch env build_statuses s)) = trigger_calls s"
    by (simp_all add: resolve_batch_def Let_def)
qed

lemma resolve_batch_classification_error:
  assumes "build_statuses_from_responses (classifier env) (execute_batch env (batch_requests s)) = Inl e"
  shows "fst (resolve_batch env build_statuses s) = Inl e"
  using assms by (simp add: resolve_batch_def)

lemma resolve_builds_classification_error:
  assumes "\<forall>b\<in>set builds. try_without_number b"
      and "can_trigger_jobs env"
      and "py_isdigit (issue_number env)" and "issue_number_converts env"
      and "missing_try_builders env builds patchset \<noteq> []"
      and "build_statuses_from_responses (classifier env)
             (execute_batch env (batch_requests s @ rerequest_completed (found_try_jobs env builds patchset))) = Inl e"
  shows "fst (resolve_builds env builds patchset s) = Inl e"
proof -
  let ?names = "try_builders_to_infer builds"
  let ?found = "found_try_jobs env builds patchset"
  let ?without = "missing_try_builders env builds patchset"
  let ?statuses = "?found @ map (\<lambda>b. (placeholder_build env b, TRIGGERED)) ?without"
  from assms(3,4) issue_number_convertsD obtain issue where issue: "int_of_str (issue_number env) = Inr issue"
    by blast
  from assms(5) have w: "builders_without_results ?names (latest_try_jobs env (issue_number env) ?names patchset) \<noteq> []"
    by (simp add: missing_try_builders_def found_try_jobs_def)
  have fetch: "fetch_or_trigger_try_jobs env ?names patchset s =
      (Inr ?statuses,
       s\<lparr>log_lines := log_lines s @ [FetchingStatus (length ?names) issue patchset],
          trigger_calls := trigger_calls s @ [?without]\<rparr>)"
    using fetch_triggers [OF assms(3) issue assms(2) w, of s]
    by (simp add: missing_try_builders_def found_try_jobs_def)
  have "set ?without \<subseteq> builder_name ` set builds"
    using try_builders_all_try(2) [OF assms(1)]
    by (auto simp: missing_try_builders_def builders_without_results_def)
  with assms(5) have ne: "builds \<noteq> []" by auto
  let ?s1 = "s\<lparr>log_lines := log_lines s @ [FetchingStatus (length ?names) issue patchset],
          trigger_calls := trigger_calls s @ [?without]\<rparr>"
  let ?s2 = "?s1\<lparr>batch_requests := batch_requests ?s1 @ rerequest_completed ?statuses\<rparr>"
  have r: "resolve_builds env builds patchset s = resolve_batch env (dict_update [] ?statuses) ?s2"
    by (simp add: resolve_builds_try [OF assms(1) ne] fetch)
  have q: "batch_requests ?s2 = batch_requests s @ rerequest_completed ?found"
    by (simp add: rerequest_completed_append rerequest_completed_placeholders)
  from assms(6) have "build_statuses_from_responses (classifier env) (execute_batch env (batch_requests ?s2)) = Inl e"
    by (simp only: q)
  then have "fst (resolve_batch env (dict_update [] ?statuses) ?s2) = Inl e"
    by (rule resolve_batch_classification_error)
  then show ?thesis by (simp only: r)
qed

text \<open>
  Claim C4 as stated fails when a record of the batch cannot be classified. Here
  \<open>linux-rel\<close> has a finished build and \<open>mac-rel\<close> has none, so \<open>mac-rel\<close> is
  triggered; the finished build is requested again, its record has a summary whose first
  shard is null, and \<open>resolve_builds\<close> raises the \<open>AttributeError\<close> of
  \<open>_shard_interrupted\<close>, not \<open>UnresolvedBuildException\<close>.
\<close>

theorem unclassifiable_batch_record_raises:
  "try_without_number (linux_rel None JNull) \<and> try_without_number (mac_rel None JNull) \<and>
   can_trigger_jobs null_shard_resolver_env \<and>
   missing_try_builders null_shard_resolver_env [linux_rel None JNull, mac_rel None JNull] (Some 3) =
     [''mac-rel''] \<and>
   fst (resolve_builds null_shard_resolver_env [linux_rel None JNull, mac_rel None JNull] (Some 3)
          empty_state) = Inl AttributeError"
proof -
  let ?env = "null_shard_resolver_env"
  let ?builds = "[linux_rel None JNull, mac_rel None JNull]"
  have a1: "try_without_number (linux_rel None JNull)" by code_simp
  have a2: "try_without_number (mac_rel None JNull)" by code_simp
  have a: "\<forall>b\<in>set ?builds. try_without_number b" using a1 a2 by simp
  have b: "can_trigger_jobs ?env" by code_simp
  have m: "missing_try_builders ?env ?builds (Some 3) = [''mac-rel'']" by code_simp
  then have ne: "missing_try_builders ?env ?builds (Some 3) \<noteq> []" by simp
  have i: "py_isdigit (issue_number ?env)" "issue_number_converts ?env"
    by (simp_all add: issue_number_converts_def null_shard_resolver_env_def int_of_str_def strip_def
      py_isdigit_def is_space_def is_digit_def digit_val_def)
  have ex: "execute_batch ?env (batch_requests empty_state @ rerequest_completed (found_try_jobs ?env ?builds (Some 3))) =
      [example_build [test_step ''https://logs.example/null-shard'']]"
    by (simp add: null_shard_resolver_env_def)
  have cl: "build_statuses_from_responses (classifier ?env)
      [example_build [test_step ''https://logs.example/null-shard'']] = Inl AttributeError"
    by code_simp
  have "build_statuses_from_responses (classifier ?env)
      (execute_batch ?env (batch_requests empty_state @ rerequest_completed (found_try_jobs ?env ?builds (Some 3)))) =
      Inl AttributeError"
    by (simp only: ex cl)
  from resolve_builds_classification_error [OF a b i ne this]
  have "fst (resolve_builds ?env ?builds (Some 3) empty_state) = Inl AttributeError" .
  with a1 a2 b m show ?thesis by (intro conjI)
qed

text \<open>
  Claim C4, as amended. For a request of try builders without build numbers, with triggering
  enabled, an issue number, and at least one builder without a build for the revision:
  \<open>fetch_or_trigger_try_jobs\<close> returns the builds found with their statuses, followed by
  one entry \<open>TRIGGERED\<close> for each builder without a build; it calls
  \<open>trigger_try_jobs\<close> once, with exactly the requested builders that have no build;
  and \<open>resolve_builds\<close> raises the \<open>UnresolvedBuildException\<close> of its pending check,
  provided the batch is classified without an exception and leaves the entry of one
  triggered builder in place.
\<close>

theorem missing_try_builders_are_triggered:
  assumes "\<forall>b\<in>set builds. try_without_number b"
      and "can_trigger_jobs env"
      and "py_isdigit (issue_number env)" and "issue_number_converts env"
      and "missing_try_builders env builds patchset \<noteq> []"
  shows "fst (fetch_or_trigger_try_jobs env (try_builders_to_infer builds) patchset s) =
           Inr (found_try_jobs env builds patchset @
                map (\<lambda>b. (placeholder_build env b, TRIGGERED)) (missing_try_builders env builds patchset)) \<and>
         trigger_calls (snd (fetch_or_trigger_try_jobs env (try_builders_to_infer builds) patchset s)) =
           trigger_calls s @ [missing_try_builders env builds patchset] \<and>
         set (missing_try_builders env builds patchset) =
           builder_name ` set builds - (\<lambda>kv. builder_name (fst kv)) ` set (found_try_jobs env builds patchset) \<and>
         (\<forall>batch.
            build_statuses_from_responses (classifier env)
              (execute_batch env (batch_requests s @ rerequest_completed (found_try_jobs env builds patchset))) =
              Inr batch \<and>
            (\<exists>b\<in>set (missing_try_builders env builds patchset). placeholder_build env b \<notin> fst ` set batch) \<longrightarrow>
              fst (resolve_builds env builds patchset s) =
                Inl (UnresolvedBuildException pending_message) \<and>
              trigger_calls (snd (resolve_builds env builds patchset s)) =
                trigger_calls s @ [missing_try_builders env builds patchset])"
proof -
  let ?names = "try_builders_to_infer builds"
  let ?found = "found_try_jobs env builds patchset"
  let ?without = "missing_try_builders env builds patchset"
  let ?statuses = "?found @ map (\<lambda>b. (placeholder_build env b, TRIGGERED)) ?without"
  from assms(3,4) issue_number_convertsD obtain issue where issue: "int_of_str (issue_number env) = Inr issue"
    by blast
  from assms(5) have w: "builders_without_results ?names (latest_try_jobs env (issue_number env) ?names patchset) \<noteq> []"
    by (simp add: missing_try_builders_def found_try_jobs_def)
  have fetch: "fetch_or_trigger_try_jobs env ?names patchset s =
      (Inr ?statuses,
       s\<lparr>log_lines := log_lines s @ [FetchingStatus (length ?names) issue patchset],
          trigger_calls := trigger_calls s @ [?without]\<rparr>)"
    using fetch_triggers [OF assms(3) issue assms(2) w, of s]
    by (simp add: missing_try_builders_def found_try_jobs_def)
  have names: "set ?without = builder_name ` set builds - (\<lambda>kv. builder_name (fst kv)) ` set ?found"
    using try_builders_all_try(2) [OF assms(1)]
    by (auto simp: missing_try_builders_def builders_without_results_def)
  from assms(5) names have ne: "builds \<noteq> []" by auto
  have resolve: "\<forall>batch.
            build_statuses_from_responses (classifier env)
              (execute_batch env (batch_requests s @ rerequest_completed ?found)) = Inr batch \<and>
            (\<exists>b\<in>set ?without. placeholder_build env b \<notin> fst ` set batch) \<longrightarrow>
              fst (resolve_builds env builds patchset s) =
                Inl (UnresolvedBuildException pending_message) \<and>
              trigger_calls (snd (resolve_builds env builds patchset s)) = trigger_calls s @ [?without]"
  proof (intro allI impI)
    fix batch
    assume a: "build_statuses_from_responses (classifier env)
              (execute_batch env (batch_requests s @ rerequest_completed ?found)) = Inr batch \<and>
            (\<exists>b\<in>set ?without. placeholder_build env b \<notin> fst ` set batch)"
    then obtain b where b: "b \<in> set ?without" and fresh: "placeholder_build env b \<notin> fst ` set batch"
      by blast
    let ?s1 = "s\<lparr>log_lines := log_lines s @ [FetchingStatus (length ?names) issue patchset],
          trigger_calls := trigger_calls s @ [?without]\<rparr>"
    let ?s2 = "?s1\<lparr>batch_requests := batch_requests ?s1 @ rerequest_completed ?statuses\<rparr>"
    have r: "resolve_builds env builds patchset s = resolve_batch env (dict_update [] ?statuses) ?s2"
      by (simp add: resolve_builds_try [OF assms(1) ne] fetch)
    have q: "batch_requests ?s2 = batch_requests s @ rerequest_completed ?found"
      by (simp add: rerequest_completed_append rerequest_completed_placeholders)
    from a have cl: "build_statuses_from_responses (classifier env) (execute_batch env (batch_requests ?s2)) = Inr batch"
      by (simp only: q)
    from fresh have n1: "map_of (rev batch) (placeholder_build env b) = None"
      by (simp add: map_of_eq_None_iff)
    from b have "map_of (map (\<lambda>b. (placeholder_build env b, TRIGGERED)) (rev ?without)) (placeholder_build env b) = Some TRIGGERED"
      by (intro map_of_constant) simp
    then have "map_of (rev ?statuses) (placeholder_build env b) = Some TRIGGERED"
      by (simp add: rev_map)
    then have "map_of (dict_update [] ?statuses) (placeholder_build env b) = Some TRIGGERED"
      by (simp add: map_of_dict_update)
    with n1 have "map_of (dict_update (dict_update [] ?statuses) batch) (placeholder_build env b) = Some TRIGGERED"
      by (simp add: map_of_dict_update [of "dict_update [] ?statuses" batch] map_add_def)
    from resolve_batch_pending [OF cl this]
    show "fst (resolve_builds env builds patchset s) =
                Inl (UnresolvedBuildException pending_message) \<and>
              trigger_calls (snd (resolve_builds env builds patchset s)) = trigger_calls s @ [?without]"
      by (simp add: r)
  qed
  from fetch names resolve show ?thesis by simp
qed

theorem missing_try_builders_are_triggered_witness:
  "try_without_number (linux_rel None JNull) \<and> try_without_number (mac_rel None JNull) \<and>
   can_trigger_jobs (example_resolver_env True) \<and>
   py_isdigit (issue_number (example_resolver_env True)) \<and>
   issue_number_converts (example_resolver_env True) \<and>
   missing_try_builders (example_resolver_env True) [linux_rel None JNull, mac_rel None JNull] (Some 3) =
     [''mac-rel''] \<and>
   fst (fetch_or_trigger_try_jobs (example_resolver_env True)
          (try_builders_to_infer [linux_rel None JNull, mac_rel None JNull]) (Some 3) empty_state) =
     Inr [(linux_rel (Some 12345) (JStr ''8765''), (''COMPLETED'', Some ''FAILURE'')),
          (mac_rel None JNull, TRIGGERED)] \<and>
   fst (resolve_builds (example_resolver_env True) [linux_rel None JNull, mac_rel None JNull] (Some 3)
          empty_state) = Inl (UnresolvedBuildException pending_message) \<and>
   trigger_calls (snd (resolve_builds (example_resolver_env True)
          [linux_rel None JNull, mac_rel None JNull] (Some 3) empty_state)) = [[''mac-rel'']]"
proof -
  let ?env = "example_resolver_env True"
  let ?builds = "[linux_rel None JNull, mac_rel None JNull]"
  let ?linux = "linux_rel (Some 12345) (JStr ''8765'')"
  have a1: "try_without_number (linux_rel None JNull)" by code_simp
  have a2: "try_without_number (mac_rel None JNull)" by code_simp
  have a: "\<forall>b\<in>set ?builds. try_without_number b" using a1 a2 by simp
  have b: "can_trigger_jobs ?env" by code_simp
  have m: "missing_try_builders ?env ?builds (Some 3) = [''mac-rel'']" by code_simp
  then have ne: "missing_try_builders ?env ?builds (Some 3) \<noteq> []" by simp
  have f: "found_try_jobs ?env ?builds (Some 3) = [(?linux, (''COMPLETED'', Some ''FAILURE''))]"
    by code_simp
  have p: "placeholder_build ?env ''mac-rel'' = mac_rel None JNull" by code_simp
  have t: "trigger_calls empty_state = []" and q: "batch_requests empty_state = []" by code_simp+
  have rr: "rerequest_completed [(?linux, (''COMPLETED'', Some ''FAILURE''))] =
      [GetBuild ?linux build_fields]" by code_simp
  have ex: "execute_batch ?env [GetBuild ?linux build_fields] =
      [example_build [test_step ''https://logs.example/interrupted'']]" by code_simp
  have cl: "build_statuses_from_responses (classifier ?env)
      [example_build [test_step ''https://logs.example/interrupted'']] =
      Inr [(?linux, (''INFRA_FAILURE'', None))]" by code_simp
  have fresh: "mac_rel None JNull \<notin> fst ` set [(?linux, (''INFRA_FAILURE'', None))]" by code_simp
  note inst = missing_try_builders_are_triggered [OF a b example_issue_number(2,3) ne, of empty_state]
  from inst have i1: "fst (fetch_or_trigger_try_jobs ?env (try_builders_to_infer ?builds) (Some 3) empty_state) =
           Inr (found_try_jobs ?env ?builds (Some 3) @
                map (\<lambda>b. (placeholder_build ?env b, TRIGGERED)) (missing_try_builders ?env ?builds (Some 3)))"
    by (rule conjunct1)
  have r1: "fst (fetch_or_trigger_try_jobs ?env (try_builders_to_infer ?builds) (Some 3) empty_state) =
     Inr [(?linux, (''COMPLETED'', Some ''FAILURE'')), (mac_rel None JNull, TRIGGERED)]"
    unfolding i1 by (simp only: m f p list.map append.simps)
  from inst have i4: "\<forall>batch.
            build_statuses_from_responses (classifier ?env)
              (execute_batch ?env (batch_requests empty_state @ rerequest_completed (found_try_jobs ?env ?builds (Some 3)))) =
              Inr batch \<and>
            (\<exists>b\<in>set (missing_try_builders ?env ?builds (Some 3)). placeholder_build ?env b \<notin> fst ` set batch) \<longrightarrow>
              fst (resolve_builds ?env ?builds (Some 3) empty_state) =
                Inl (UnresolvedBuildException pending_message) \<and>
              trigger_calls (snd (resolve_builds ?env ?builds (Some 3) empty_state)) =
                trigger_calls empty_state @ [missing_try_builders ?env ?builds (Some 3)]"
    by (rule conjunct2 [OF conjunct2 [OF conjunct2]])
  have c1: "build_statuses_from_responses (classifier ?env)
              (execute_batch ?env (batch_requests empty_state @ rerequest_completed (found_try_jobs ?env ?builds (Some 3)))) =
              Inr [(?linux, (''INFRA_FAILURE'', None))]"
    by (simp only: f q rr ex cl append_Nil)
  have mem: "''mac-rel'' \<in> set (missing_try_builders ?env ?builds (Some 3))"
    by (simp only: m list.set insertI1)
  from fresh have fr: "placeholder_build ?env ''mac-rel'' \<notin> fst ` set [(?linux, (''INFRA_FAILURE'', None))]"
    by (simp only: p)
  have c2: "\<exists>b\<in>set (missing_try_builders ?env ?builds (Some 3)).
               placeholder_build ?env b \<notin> fst ` set [(?linux, (''INFRA_FAILURE'', None))]"
    by (rule bexI [of "\<lambda>b. placeholder_build ?env b \<notin> fst ` set [(?linux, (''INFRA_FAILURE'', None))]"
          "''mac-rel''", OF fr mem])
  note i5 = i4 [rule_format, OF conjI [OF c1 c2]]
  from i5 have r2: "fst (resolve_builds ?env ?builds (Some 3) empty_state) =
                Inl (UnresolvedBuildException pending_message)"
    by (rule conjunct1)
  from i5 have r3: "trigger_calls (snd (resolve_builds ?env ?builds (Some 3) empty_state)) =
                trigger_calls empty_state @ [missing_try_builders ?env ?builds (Some 3)]"
    by (rule conjunct2)
  from r3 have r3': "trigger_calls (snd (resolve_builds ?env ?builds (Some 3) empty_state)) = [[''mac-rel'']]"
    by (simp only: t m append_Nil)
  from a1 a2 b example_issue_number(2,3) [of True] m r1 r2 r3' show ?thesis
    by (intro conjI)
qed







end
